theory Spec2Isabelle
  imports Complex_Main "HOL-Library.List_Lexorder"
begin

section \<open>Data model\<close>

text \<open>
  The notebook \<^verbatim>\<open>02_data_validation_cleaning\<close> works on one pandas DataFrame \<^verbatim>\<open>df\<close>
  read with \<^verbatim>\<open>pd.read_csv\<close>. A row carries the three columns the notebook names and the
  remaining columns of the file, which no cell touches.

  \<^item> A missing value (an empty CSV field, NaN) is \<open>None\<close>.
  \<^item> \<^verbatim>\<open>duracion_dias\<close> is a float64 column. A value that is present is minus infinity, a
    rational or plus infinity; sums and halves are rounded to binary64 (\<open>round64\<close>), with
    overflow to an infinity. A rational \<open>q\<close> is a float64 value when \<open>round64 q = Fin q\<close>;
    every statement below holds for all rationals. The two zeros of IEEE arithmetic, which
    compare equal, are one value here. A column of integers is read as its conversion to
    float64, which is exact below \<open>2 ^ 53\<close> days.
  \<^item> Text is a list of Unicode code points, compared as Python compares \<^verbatim>\<open>str\<close>: code
    point by code point, a proper prefix first. The Unicode character database that
    \<^verbatim>\<open>str.strip\<close> and \<^verbatim>\<open>str.capitalize\<close> consult is the parameter \<open>U\<close> of the model;
    \<open>latin1\<close> is that database below U+0100, used for the worked tables.
  \<^item> \<^verbatim>\<open>tipo_vehiculo\<close> is a text column. \<^verbatim>\<open>zona_circulacion\<close> is a column of any one type
    \<open>'z\<close> with its linear order: text when \<^verbatim>\<open>read_csv\<close> finds text, numbers with their
    numeric order when every label looks like a number. Every value of a column has the
    type of the column, as \<^verbatim>\<open>read_csv\<close> leaves it when it infers the type from the whole
    file. A file whose \<^verbatim>\<open>tipo_vehiculo\<close> fields all look like numbers, or whose
    \<^verbatim>\<open>duracion_dias\<close> fields do not, is not a table of this type; on such a file the
    cleaning cell raises (the \<^verbatim>\<open>.str\<close> accessor, the median) and cleans nothing.
  \<^item> The row labels (\<^verbatim>\<open>df.index\<close>) are kept beside the rows: \<^verbatim>\<open>read_csv\<close> numbers them
    from 0 and \<^verbatim>\<open>drop_duplicates\<close> does not renumber.
  \<^item> \<^verbatim>\<open>df[col].fillna(value, inplace=True)\<close> writes through to \<^verbatim>\<open>df\<close>, as it does in
    pandas 1 and 2 (without copy-on-write), the behaviour the notebook relies on.
  \<^item> Reading and writing files are outside the model: the table is taken as loaded, and
    the written file is the header and the records handed to \<^verbatim>\<open>to_csv\<close>.
\<close>

datatype f64 = NegInf | Fin rat | PosInf

type_synonym float = "f64 option"

type_synonym str = "nat list"

datatype cell = NaN | Num f64 | Str str

record 'z fila =
  tipo_vehiculo :: "str option"
  duracion_dias :: float
  zona_circulacion :: "'z option"
  otras :: "cell list"

record 'z dataframe =
  columns :: "string list"
  index :: "nat list"
  filas :: "'z fila list"

datatype error = KeyError string | AttributeError

text \<open>What a cell prints, as far as it is a count; the renderings of \<^verbatim>\<open>info()\<close>,
  \<^verbatim>\<open>head()\<close>, \<^verbatim>\<open>describe()\<close> and \<^verbatim>\<open>value_counts()\<close> are not modelled.\<close>

datatype printed =
    Faltantes "(string \<times> nat) list"
  | Duplicadas nat
  | Negativas nat
  | Registros nat

record 'z csv =
  header :: "string list"
  records :: "(nat option \<times> 'z fila) list"

text \<open>The globals of the kernel. A name that no cell has assigned yet is \<open>None\<close>;
  \<open>limpio_csv\<close> is the file \<^verbatim>\<open>data/processed/permisos_circulacion_limpio.csv\<close>.\<close>

record 'z notebook =
  df :: "'z dataframe"
  invalid_duracion :: "'z dataframe option"
  median_duracion :: "float option"
  most_frequent_zona :: "'z option"
  stdout :: "printed list"
  limpio_csv :: "'z csv option"

text \<open>The part of the Unicode character database the notebook reaches: whitespace
  (\<^verbatim>\<open>str.isspace\<close>), the full title-case mapping of a character, and the full lower-case
  mapping of the character at a position of a text (the position matters for the Greek
  capital sigma only).\<close>

record ucd =
  isspace :: "nat \<Rightarrow> bool"
  totitle :: "nat \<Rightarrow> str"
  tolower_at :: "str \<Rightarrow> nat \<Rightarrow> str"

section \<open>float64\<close>

text \<open>The order of the float64 values other than NaN.\<close>

instantiation f64 :: linorder
begin

fun less_eq_f64 :: "f64 \<Rightarrow> f64 \<Rightarrow> bool" where
  "less_eq_f64 NegInf y = True"
| "less_eq_f64 (Fin a) NegInf = False"
| "less_eq_f64 (Fin a) (Fin b) = (a \<le> b)"
| "less_eq_f64 (Fin a) PosInf = True"
| "less_eq_f64 PosInf NegInf = False"
| "less_eq_f64 PosInf (Fin b) = False"
| "less_eq_f64 PosInf PosInf = True"

definition less_f64 :: "f64 \<Rightarrow> f64 \<Rightarrow> bool" where
  "less_f64 x y = (x \<le> y \<and> \<not> y \<le> x)"

instance
proof
  fix x y z :: f64
  show "x < y \<longleftrightarrow> x \<le> y \<and> \<not> y \<le> x"
    by (simp add: less_f64_def)
  show "x \<le> x"
    by (cases x) simp_all
  show "x \<le> y \<Longrightarrow> y \<le> z \<Longrightarrow> x \<le> z"
    by (cases x; cases y; cases z) simp_all
  show "x \<le> y \<Longrightarrow> y \<le> x \<Longrightarrow> x = y"
    by (cases x; cases y) simp_all
  show "x \<le> y \<or> y \<le> x"
    by (cases x; cases y) auto
qed

end

text \<open>Rounding a rational to binary64, to nearest with ties to even: 53 significant bits,
  exponents from -1022 (below, the spacing stays \<open>2 ^ -1074\<close>) to 1023, and an infinity
  once the rounded magnitude reaches \<open>2 ^ 1024\<close>. \<open>ilog2 x\<close> is the exponent of \<open>x\<close>, the
  integer \<open>e\<close> with \<open>2 ^ e \<le> \<bar>x\<bar> < 2 ^ (e + 1)\<close>.\<close>

function bit_length :: "int \<Rightarrow> int" where
  "bit_length n = (if n \<le> 0 then 0 else 1 + bit_length (n div 2))"
  by pat_completeness auto
termination
  by (relation "measure nat") auto

definition pow2 :: "int \<Rightarrow> rat" where
  "pow2 e = (if 0 \<le> e then 2 ^ nat e else 1 / 2 ^ nat (- e))"

definition ilog2 :: "rat \<Rightarrow> int" where
  "ilog2 x =
     (let (p, q) = quotient_of \<bar>x\<bar>;
          d = bit_length p - bit_length q
      in if pow2 d \<le> \<bar>x\<bar> then d else d - 1)"

definition round_half_even :: "rat \<Rightarrow> int" where
  "round_half_even x =
     (let f = \<lfloor>x\<rfloor>; r = x - of_int f
      in if r < 1 / 2 then f else if 1 / 2 < r then f + 1 else if even f then f else f + 1)"

definition round64 :: "rat \<Rightarrow> f64" where
  "round64 x =
     (if x = 0 then Fin 0
      else
        let e = max (ilog2 x) (- 1022);
            q = pow2 (e - 52);
            y = of_int (round_half_even (x / q)) * q
        in if 1024 \<le> ilog2 y then (if 0 < x then PosInf else NegInf) else Fin y)"

text \<open>\<^verbatim>\<open>a + b\<close> and \<^verbatim>\<open>a / 2\<close> on float64 values; the sum of the two infinities is NaN.\<close>

fun fadd :: "f64 \<Rightarrow> f64 \<Rightarrow> float" where
  "fadd (Fin a) (Fin b) = Some (round64 (a + b))"
| "fadd NegInf PosInf = None"
| "fadd PosInf NegInf = None"
| "fadd NegInf y = Some NegInf"
| "fadd PosInf y = Some PosInf"
| "fadd (Fin a) NegInf = Some NegInf"
| "fadd (Fin a) PosInf = Some PosInf"

fun fhalf :: "f64 \<Rightarrow> f64" where
  "fhalf (Fin a) = round64 (a / 2)"
| "fhalf NegInf = NegInf"
| "fhalf PosInf = PosInf"

text \<open>\<^verbatim>\<open>v < 0\<close> and \<^verbatim>\<open>v >= 0\<close> on a float: both false for NaN.\<close>

definition negative :: "float \<Rightarrow> bool" where
  "negative v = (case v of None \<Rightarrow> False | Some x \<Rightarrow> x < Fin 0)"

definition nonnegative :: "float \<Rightarrow> bool" where
  "nonnegative v = (case v of None \<Rightarrow> False | Some x \<Rightarrow> Fin 0 \<le> x)"

section \<open>pandas operations\<close>

subsection \<open>Boolean masks and duplicates\<close>

text \<open>\<^verbatim>\<open>df[mask]\<close>: the entries whose mask bit is set, in order.\<close>

definition mask_select :: "bool list \<Rightarrow> 'a list \<Rightarrow> 'a list" where
  "mask_select sel xs = map snd (filter fst (zip sel xs))"

text \<open>\<^verbatim>\<open>duplicated(keep='first')\<close>: a row is marked when an equal row was seen before.
  Rows are compared on all columns, and two missing values count as equal.\<close>

fun duplicated_from :: "'a list \<Rightarrow> 'a list \<Rightarrow> bool list" where
  "duplicated_from seen [] = []"
| "duplicated_from seen (x # xs) = (x \<in> set seen) # duplicated_from (List.insert x seen) xs"

definition duplicated :: "'a list \<Rightarrow> bool list" where
  "duplicated xs = duplicated_from [] xs"

text \<open>\<^verbatim>\<open>df.drop_duplicates(inplace=True)\<close>: \<^verbatim>\<open>df[~df.duplicated()]\<close>.\<close>

definition drop_duplicates :: "'z dataframe \<Rightarrow> 'z dataframe" where
  "drop_duplicates d =
     (let keep = map Not (duplicated (filas d))
      in d\<lparr>index := mask_select keep (index d), filas := mask_select keep (filas d)\<rparr>)"

subsection \<open>Text\<close>

text \<open>\<^verbatim>\<open>str.strip()\<close>: the text without the whitespace at its two ends.\<close>

definition strip :: "ucd \<Rightarrow> str \<Rightarrow> str" where
  "strip U s = rev (dropWhile (isspace U) (rev (dropWhile (isspace U) s)))"

text \<open>\<^verbatim>\<open>str.capitalize()\<close>: the first character in title case, every later character in
  lower case.\<close>

definition capitalize :: "ucd \<Rightarrow> str \<Rightarrow> str" where
  "capitalize U s =
     (case s of
        [] \<Rightarrow> []
      | c # _ \<Rightarrow> totitle U c @ concat (map (tolower_at U s) [1..<length s]))"

text \<open>The \<^verbatim>\<open>.str\<close> accessor maps a missing value to a missing value. It refuses a column
  that is not of object dtype (\<^verbatim>\<open>AttributeError\<close>): \<^verbatim>\<open>read_csv\<close> gives a text column whose
  fields are all empty the dtype float64, unless the table has no row at all.\<close>

definition str_accessor_ok :: "str option list \<Rightarrow> bool" where
  "str_accessor_ok col = (col = [] \<or> (\<exists>v \<in> set col. v \<noteq> None))"

subsection \<open>Statistics and filling\<close>

definition dropna :: "'a option list \<Rightarrow> 'a list" where
  "dropna col = map the (filter (\<lambda>v. v \<noteq> None) col)"

text \<open>\<^verbatim>\<open>Series.median()\<close> skips missing values and is NaN when nothing is left. For an odd
  count it is the middle value; for an even count the two middle values are added and the
  sum is halved, each step in float64.\<close>

definition median :: "float list \<Rightarrow> float" where
  "median col =
     (let vs = sort (dropna col); n = length vs
      in if n = 0 then None
         else if odd n then Some (vs ! (n div 2))
         else map_option fhalf (fadd (vs ! (n div 2 - 1)) (vs ! (n div 2))))"

text \<open>\<^verbatim>\<open>Series.mode()\<close>: the non-missing values of the highest count, sorted ascending in
  the order of the column's type.\<close>

definition mode :: "('a :: linorder) option list \<Rightarrow> 'a list" where
  "mode col =
     (let vs = dropna col
      in if vs = [] then []
         else let top = Max (set (map (count_list vs) vs))
              in sort (remdups (filter (\<lambda>v. count_list vs v = top) vs)))"

text \<open>\<^verbatim>\<open>s[0]\<close> on the result of \<^verbatim>\<open>mode()\<close>: the label 0 is the first entry, and an empty
  result has no label 0.\<close>

definition getitem0 :: "'a list \<Rightarrow> error + 'a" where
  "getitem0 xs = (case xs of [] \<Rightarrow> Inl (KeyError ''0'') | x # _ \<Rightarrow> Inr x)"

text \<open>\<^verbatim>\<open>fillna(value)\<close>; filling with NaN changes nothing.\<close>

definition fillna :: "'a option \<Rightarrow> 'a option \<Rightarrow> 'a option" where
  "fillna value v = (case v of None \<Rightarrow> value | Some x \<Rightarrow> Some x)"

subsection \<open>Columns\<close>

text \<open>\<^verbatim>\<open>df[name] = ...\<close> keeps the place of a column that exists and appends a new one.\<close>

definition setitem_columns :: "string list \<Rightarrow> string \<Rightarrow> string list" where
  "setitem_columns cols name = (if name \<in> set cols then cols else cols @ [name])"

definition otras_names :: "string list \<Rightarrow> string list" where
  "otras_names cols =
     filter (\<lambda>c. c \<noteq> ''tipo_vehiculo'' \<and> c \<noteq> ''duracion_dias'' \<and> c \<noteq> ''zona_circulacion'') cols"

definition isnull_at :: "string list \<Rightarrow> string \<Rightarrow> 'z fila \<Rightarrow> bool" where
  "isnull_at cols c r =
     (if c = ''tipo_vehiculo'' then tipo_vehiculo r = None
      else if c = ''duracion_dias'' then duracion_dias r = None
      else if c = ''zona_circulacion'' then zona_circulacion r = None
      else (case map_of (zip (otras_names cols) (otras r)) c of
              Some NaN \<Rightarrow> True | _ \<Rightarrow> False))"

text \<open>\<^verbatim>\<open>df.isnull().sum()\<close>: the count of missing values of every column.\<close>

definition isnull_sum :: "'z dataframe \<Rightarrow> (string \<times> nat) list" where
  "isnull_sum d =
     map (\<lambda>c. (c, length (filter (isnull_at (columns d) c) (filas d)))) (columns d)"

text \<open>\<^verbatim>\<open>df.to_csv(path, index=...)\<close>: with the index, an unnamed first column of labels.\<close>

definition to_csv :: "'z dataframe \<Rightarrow> bool \<Rightarrow> 'z csv" where
  "to_csv d with_index =
     (if with_index
      then \<lparr>header = [] # columns d,
            records = map2 (\<lambda>i r. (Some i, r)) (index d) (filas d)\<rparr>
      else \<lparr>header = columns d, records = map (\<lambda>r. (None, r)) (filas d)\<rparr>)"

section \<open>The cells of the notebook\<close>

subsection \<open>1. Validacion y deteccion de inconsistencias\<close>

definition inspect_cell :: "'z notebook \<Rightarrow> error + 'z notebook" where
  "inspect_cell nb =
     (let d = df nb;
          out = stdout nb @
            [Faltantes (isnull_sum d),
             Duplicadas (length (filter id (duplicated (filas d))))]
      in if ''duracion_dias'' \<notin> set (columns d) then Inl (KeyError ''duracion_dias'')
         else
           let sel = map (\<lambda>r. negative (duracion_dias r)) (filas d);
               inv = d\<lparr>index := mask_select sel (index d),
                       filas := mask_select sel (filas d)\<rparr>
           in Inr (nb\<lparr>invalid_duracion := Some inv,
                      stdout := out @ [Negativas (length (filas inv))]\<rparr>))"

subsection \<open>2. Limpieza y estandarizacion de datos\<close>

definition normalize_tipo :: "ucd \<Rightarrow> 'z dataframe \<Rightarrow> 'z dataframe" where
  "normalize_tipo U d =
     d\<lparr>columns := setitem_columns (columns d) ''tipo_vehiculo'',
       filas := map (\<lambda>r. r\<lparr>tipo_vehiculo := map_option (capitalize U \<circ> strip U) (tipo_vehiculo r)\<rparr>)
                  (filas d)\<rparr>"

definition fillna_duracion :: "float \<Rightarrow> 'z dataframe \<Rightarrow> 'z dataframe" where
  "fillna_duracion value d =
     d\<lparr>filas := map (\<lambda>r. r\<lparr>duracion_dias := fillna value (duracion_dias r)\<rparr>) (filas d)\<rparr>"

definition fillna_zona :: "'z \<Rightarrow> 'z dataframe \<Rightarrow> 'z dataframe" where
  "fillna_zona value d =
     d\<lparr>filas := map (\<lambda>r. r\<lparr>zona_circulacion := fillna (Some value) (zona_circulacion r)\<rparr>)
                  (filas d)\<rparr>"

definition replace_negative :: "float \<Rightarrow> 'z dataframe \<Rightarrow> 'z dataframe" where
  "replace_negative value d =
     d\<lparr>filas := map (\<lambda>r. if negative (duracion_dias r) then r\<lparr>duracion_dias := value\<rparr> else r)
                  (filas d)\<rparr>"

definition clean_cell :: "ucd \<Rightarrow> ('z :: linorder) notebook \<Rightarrow> error + 'z notebook" where
  "clean_cell U nb =
     (let d1 = drop_duplicates (df nb);
          out = stdout nb @ [Registros (length (filas d1))]
      in if ''tipo_vehiculo'' \<notin> set (columns d1) then Inl (KeyError ''tipo_vehiculo'')
         else if \<not> str_accessor_ok (map tipo_vehiculo (filas d1)) then Inl AttributeError
         else
           let d2 = normalize_tipo U d1
           in if ''duracion_dias'' \<notin> set (columns d2) then Inl (KeyError ''duracion_dias'')
              else
                let med = median (map duracion_dias (filas d2));
                    d3 = fillna_duracion med d2
                in if ''zona_circulacion'' \<notin> set (columns d3)
                   then Inl (KeyError ''zona_circulacion'')
                   else
                     (case getitem0 (mode (map zona_circulacion (filas d3))) of
                        Inl e \<Rightarrow> Inl e
                      | Inr zona \<Rightarrow>
                          Inr (nb\<lparr>df := replace_negative med (fillna_zona zona d3),
                                 median_duracion := Some med,
                                 most_frequent_zona := Some zona,
                                 stdout := out\<rparr>)))"

subsection \<open>3. Verificacion final y resumen\<close>

definition verify_cell :: "'z notebook \<Rightarrow> error + 'z notebook" where
  "verify_cell nb =
     (let d = df nb
      in if ''duracion_dias'' \<notin> set (columns d) then Inl (KeyError ''duracion_dias'')
         else Inr (nb\<lparr>stdout := stdout nb @ [Faltantes (isnull_sum d)],
                    limpio_csv := Some (to_csv d False)\<rparr>))"

text \<open>The cells in order, after the table has been loaded; an exception ends the run.\<close>

definition run_all :: "ucd \<Rightarrow> ('z :: linorder) notebook \<Rightarrow> error + 'z notebook" where
  "run_all U nb =
     (case inspect_cell nb of
        Inl e \<Rightarrow> Inl e
      | Inr nb1 \<Rightarrow> (case clean_cell U nb1 of Inl e \<Rightarrow> Inl e | Inr nb2 \<Rightarrow> verify_cell nb2))"

definition loaded :: "'z dataframe \<Rightarrow> 'z notebook" where
  "loaded d = \<lparr>df = d, invalid_duracion = None, median_duracion = None,
              most_frequent_zona = None, stdout = [], limpio_csv = None\<rparr>"

section \<open>Readings of the specification\<close>

text \<open>The specification's data model for \<^verbatim>\<open>tipo_vehiculo\<close>: first letter capitalized,
  remaining letters unchanged in case.\<close>

definition spec_capitalize_first :: "ucd \<Rightarrow> str \<Rightarrow> str" where
  "spec_capitalize_first U s = (case s of [] \<Rightarrow> [] | c # cs \<Rightarrow> totitle U c @ cs)"

text \<open>The specification's tie-break for \<^verbatim>\<open>zona_circulacion\<close>: of the values with the highest
  count, the one met first in the column.\<close>

definition spec_mode_first_encountered :: "'a option list \<Rightarrow> 'a option" where
  "spec_mode_first_encountered col =
     (let vs = dropna col
      in if vs = [] then None
         else let top = Max (set (map (count_list vs) vs))
              in Some (hd (filter (\<lambda>v. count_list vs v = top) vs)))"

section \<open>The Unicode character database below U+0100\<close>

text \<open>Whitespace: the ASCII controls 9 to 13 and 28 to 31, the space, U+0085 and the
  no-break space U+00A0. Lower case: A to Z and the capital letters U+00C0 to U+00DE
  (not the multiplication sign) move up by 32. Title case: a to z and the small letters
  U+00E0 to U+00FE (not the division sign) move down by 32; the micro sign becomes the Greek
  capital mu, the sharp s becomes Ss, and y with diaeresis becomes U+0178.\<close>

definition latin1_isspace :: "nat \<Rightarrow> bool" where
  "latin1_isspace c = (c \<in> {9, 10, 11, 12, 13, 28, 29, 30, 31, 32, 133, 160})"

definition latin1_tolower :: "nat \<Rightarrow> nat" where
  "latin1_tolower c =
     (if (65 \<le> c \<and> c \<le> 90) \<or> (192 \<le> c \<and> c \<le> 222 \<and> c \<noteq> 215) then c + 32 else c)"

definition latin1_totitle :: "nat \<Rightarrow> str" where
  "latin1_totitle c =
     (if (97 \<le> c \<and> c \<le> 122) \<or> (224 \<le> c \<and> c \<le> 254 \<and> c \<noteq> 247) then [c - 32]
      else if c = 181 then [924]
      else if c = 223 then [83, 115]
      else if c = 255 then [376]
      else [c])"

definition latin1 :: ucd where
  "latin1 = \<lparr>isspace = latin1_isspace, totitle = latin1_totitle,
             tolower_at = (\<lambda>s i. [latin1_tolower (s ! i)])\<rparr>"

text \<open>A text written in ASCII, as its code points.\<close>

definition str_of :: "string \<Rightarrow> str" where
  "str_of s = map of_char s"

section \<open>Worked tables\<close>

text \<open>Six permits; the last line of the file repeats the second. Without the repeated
  line the durations are 5, -3, missing, 7, 9 and the zones B, A, missing, A, B.\<close>

definition permisos :: "str dataframe" where
  "permisos =
     \<lparr>columns = [''id'', ''tipo_vehiculo'', ''duracion_dias'', ''zona_circulacion''],
      index = [0, 1, 2, 3, 4, 5],
      filas =
       [\<lparr>tipo_vehiculo = Some (str_of '' sUV ''), duracion_dias = Some (Fin 5),
         zona_circulacion = Some (str_of ''B''), otras = [Num (Fin 1)]\<rparr>,
        \<lparr>tipo_vehiculo = Some (str_of ''auto''), duracion_dias = Some (Fin (- 3)),
         zona_circulacion = Some (str_of ''A''), otras = [Num (Fin 2)]\<rparr>,
        \<lparr>tipo_vehiculo = None, duracion_dias = None,
         zona_circulacion = None, otras = [Num (Fin 3)]\<rparr>,
        \<lparr>tipo_vehiculo = Some (str_of ''MOTO''), duracion_dias = Some (Fin 7),
         zona_circulacion = Some (str_of ''A''), otras = [Num (Fin 4)]\<rparr>,
        \<lparr>tipo_vehiculo = Some (str_of ''Camion ''), duracion_dias = Some (Fin 9),
         zona_circulacion = Some (str_of ''B''), otras = [Num (Fin 5)]\<rparr>,
        \<lparr>tipo_vehiculo = Some (str_of ''auto''), duracion_dias = Some (Fin (- 3)),
         zona_circulacion = Some (str_of ''A''), otras = [Num (Fin 2)]\<rparr>]\<rparr>"

definition permisos_limpios :: "str dataframe" where
  "permisos_limpios =
     \<lparr>columns = [''id'', ''tipo_vehiculo'', ''duracion_dias'', ''zona_circulacion''],
      index = [0, 1, 2, 3, 4],
      filas =
       [\<lparr>tipo_vehiculo = Some (str_of ''Suv''), duracion_dias = Some (Fin 5),
         zona_circulacion = Some (str_of ''B''), otras = [Num (Fin 1)]\<rparr>,
        \<lparr>tipo_vehiculo = Some (str_of ''Auto''), duracion_dias = Some (Fin 6),
         zona_circulacion = Some (str_of ''A''), otras = [Num (Fin 2)]\<rparr>,
        \<lparr>tipo_vehiculo = None, duracion_dias = Some (Fin 6),
         zona_circulacion = Some (str_of ''A''), otras = [Num (Fin 3)]\<rparr>,
        \<lparr>tipo_vehiculo = Some (str_of ''Moto''), duracion_dias = Some (Fin 7),
         zona_circulacion = Some (str_of ''A''), otras = [Num (Fin 4)]\<rparr>,
        \<lparr>tipo_vehiculo = Some (str_of ''Camion''), duracion_dias = Some (Fin 9),
         zona_circulacion = Some (str_of ''B''), otras = [Num (Fin 5)]\<rparr>]\<rparr>"

definition permisos_invalidos :: "str dataframe" where
  "permisos_invalidos =
     \<lparr>columns = [''id'', ''tipo_vehiculo'', ''duracion_dias'', ''zona_circulacion''],
      index = [1, 5],
      filas =
       [\<lparr>tipo_vehiculo = Some (str_of ''auto''), duracion_dias = Some (Fin (- 3)),
         zona_circulacion = Some (str_of ''A''), otras = [Num (Fin 2)]\<rparr>,
        \<lparr>tipo_vehiculo = Some (str_of ''auto''), duracion_dias = Some (Fin (- 3)),
         zona_circulacion = Some (str_of ''A''), otras = [Num (Fin 2)]\<rparr>]\<rparr>"

definition permisos_inspeccionados :: "str notebook" where
  "permisos_inspeccionados =
     \<lparr>df = permisos, invalid_duracion = Some permisos_invalidos, median_duracion = None,
      most_frequent_zona = None,
      stdout = [Faltantes [(''id'', 0), (''tipo_vehiculo'', 1), (''duracion_dias'', 1),
                           (''zona_circulacion'', 1)],
                Duplicadas 1, Negativas 2],
      limpio_csv = None\<rparr>"

definition permisos_tras_limpieza :: "str notebook" where
  "permisos_tras_limpieza =
     \<lparr>df = permisos_limpios, invalid_duracion = None, median_duracion = Some (Some (Fin 6)),
      most_frequent_zona = Some (str_of ''A''), stdout = [Registros 5], limpio_csv = None\<rparr>"

definition permisos_final :: "str notebook" where
  "permisos_final =
     \<lparr>df = permisos_limpios, invalid_duracion = Some permisos_invalidos,
      median_duracion = Some (Some (Fin 6)), most_frequent_zona = Some (str_of ''A''),
      stdout = [Faltantes [(''id'', 0), (''tipo_vehiculo'', 1), (''duracion_dias'', 1),
                           (''zona_circulacion'', 1)],
                Duplicadas 1, Negativas 2, Registros 5,
                Faltantes [(''id'', 0), (''tipo_vehiculo'', 1), (''duracion_dias'', 0),
                           (''zona_circulacion'', 0)]],
      limpio_csv = Some (to_csv permisos_limpios False)\<rparr>"

text \<open>Four permits, three of them with a negative duration.\<close>

definition permisos_negativos :: "str dataframe" where
  "permisos_negativos =
     \<lparr>columns = [''tipo_vehiculo'', ''duracion_dias'', ''zona_circulacion''],
      index = [0, 1, 2, 3],
      filas =
       [\<lparr>tipo_vehiculo = Some (str_of ''auto''), duracion_dias = Some (Fin (- 5)),
         zona_circulacion = Some (str_of ''A''), otras = []\<rparr>,
        \<lparr>tipo_vehiculo = Some (str_of ''auto''), duracion_dias = None,
         zona_circulacion = Some (str_of ''A''), otras = []\<rparr>,
        \<lparr>tipo_vehiculo = Some (str_of ''auto''), duracion_dias = Some (Fin (- 3)),
         zona_circulacion = Some (str_of ''A''), otras = []\<rparr>,
        \<lparr>tipo_vehiculo = Some (str_of ''auto''), duracion_dias = Some (Fin (- 1)),
         zona_circulacion = Some (str_of ''A''), otras = []\<rparr>]\<rparr>"

text \<open>Two permits whose duration field is empty.\<close>

definition permisos_sin_duracion :: "str dataframe" where
  "permisos_sin_duracion =
     \<lparr>columns = [''tipo_vehiculo'', ''duracion_dias'', ''zona_circulacion''],
      index = [0, 1],
      filas =
       [\<lparr>tipo_vehiculo = Some (str_of ''auto''), duracion_dias = None,
         zona_circulacion = Some (str_of ''A''), otras = []\<rparr>,
        \<lparr>tipo_vehiculo = Some (str_of ''moto''), duracion_dias = None,
         zona_circulacion = Some (str_of ''B''), otras = []\<rparr>]\<rparr>"

text \<open>Three permits, no two alike; zones B and A occur once each, B first.\<close>

definition permisos_empate :: "str dataframe" where
  "permisos_empate =
     \<lparr>columns = [''tipo_vehiculo'', ''duracion_dias'', ''zona_circulacion''],
      index = [0, 1, 2],
      filas =
       [\<lparr>tipo_vehiculo = Some (str_of '' sUV ''), duracion_dias = Some (Fin 5),
         zona_circulacion = Some (str_of ''B''), otras = []\<rparr>,
        \<lparr>tipo_vehiculo = Some (str_of ''MOTO''), duracion_dias = Some (Fin 7),
         zona_circulacion = Some (str_of ''A''), otras = []\<rparr>,
        \<lparr>tipo_vehiculo = Some (str_of ''auto''), duracion_dias = Some (Fin 9),
         zona_circulacion = None, otras = []\<rparr>]\<rparr>"

text \<open>The same with numbered zones 10 and 9, which \<^verbatim>\<open>read_csv\<close> reads as numbers.\<close>

definition permisos_zona_numerica :: "f64 dataframe" where
  "permisos_zona_numerica =
     \<lparr>columns = [''tipo_vehiculo'', ''duracion_dias'', ''zona_circulacion''],
      index = [0, 1, 2],
      filas =
       [\<lparr>tipo_vehiculo = Some (str_of '' sUV ''), duracion_dias = Some (Fin 5),
         zona_circulacion = Some (Fin 10), otras = []\<rparr>,
        \<lparr>tipo_vehiculo = Some (str_of ''MOTO''), duracion_dias = Some (Fin 7),
         zona_circulacion = Some (Fin 9), otras = []\<rparr>,
        \<lparr>tipo_vehiculo = Some (str_of ''auto''), duracion_dias = Some (Fin 9),
         zona_circulacion = None, otras = []\<rparr>]\<rparr>"

text \<open>Two permits whose zone field is empty.\<close>

definition permisos_sin_zona :: "str dataframe" where
  "permisos_sin_zona =
     \<lparr>columns = [''tipo_vehiculo'', ''duracion_dias'', ''zona_circulacion''],
      index = [0, 1],
      filas =
       [\<lparr>tipo_vehiculo = Some (str_of ''auto''), duracion_dias = Some (Fin 5),
         zona_circulacion = None, otras = []\<rparr>,
        \<lparr>tipo_vehiculo = Some (str_of ''moto''), duracion_dias = Some (Fin 7),
         zona_circulacion = None, otras = []\<rparr>]\<rparr>"

text \<open>Two permits with the durations minus infinity and plus infinity.\<close>

definition permisos_infinitos :: "str dataframe" where
  "permisos_infinitos =
     \<lparr>columns = [''tipo_vehiculo'', ''duracion_dias'', ''zona_circulacion''],
      index = [0, 1],
      filas =
       [\<lparr>tipo_vehiculo = Some (str_of ''auto''), duracion_dias = Some NegInf,
         zona_circulacion = Some (str_of ''A''), otras = []\<rparr>,
        \<lparr>tipo_vehiculo = Some (str_of ''moto''), duracion_dias = Some PosInf,
         zona_circulacion = Some (str_of ''B''), otras = []\<rparr>]\<rparr>"

section \<open>Masks and duplicates\<close>

lemma mask_select_Nil [simp]: "mask_select [] xs = []" "mask_select bs [] = []"
  by (simp_all add: mask_select_def)

lemma mask_select_Cons [simp]:
  "mask_select (b # bs) (x # xs) = (if b then x # mask_select bs xs else mask_select bs xs)"
  by (simp add: mask_select_def)

lemma length_duplicated_from [simp]: "length (duplicated_from seen xs) = length xs"
  by (induction xs arbitrary: seen) simp_all

lemma duplicated_from_nth:
  "i < length xs \<Longrightarrow> duplicated_from seen xs ! i = (xs ! i \<in> set seen \<union> set (take i xs))"
proof (induction xs arbitrary: seen i)
  case Nil
  then show ?case by simp
next
  case (Cons x xs)
  show ?case
  proof (cases i)
    case 0
    then show ?thesis by simp
  next
    case (Suc k)
    with Cons.prems have "k < length xs" by simp
    from Cons.IH [OF this, of "List.insert x seen"] Suc show ?thesis by auto
  qed
qed

lemma keep_first_nths:
  "mask_select (map Not (duplicated_from seen xs)) xs =
     nths xs {i. xs ! i \<notin> set seen \<union> set (take i xs)}"
proof (induction xs arbitrary: seen)
  case Nil
  then show ?case by simp
next
  case (Cons x xs)
  have "{j. Suc j \<in> {i. (x # xs) ! i \<notin> set seen \<union> set (take i (x # xs))}} =
            {i. xs ! i \<notin> set (List.insert x seen) \<union> set (take i xs)}"
    by auto
  then have tl: "nths xs {j. Suc j \<in> {i. (x # xs) ! i \<notin> set seen \<union> set (take i (x # xs))}} =
            mask_select (map Not (duplicated_from (List.insert x seen) xs)) xs"
    by (simp only: Cons.IH)
  show ?case
    unfolding nths_Cons tl by simp
qed

lemma keep_first_set:
  "set (mask_select (map Not (duplicated_from seen xs)) xs) = set xs - set seen"
  by (induction xs arbitrary: seen) auto

lemma keep_first_distinct:
  "distinct (mask_select (map Not (duplicated_from seen xs)) xs)"
  by (induction xs arbitrary: seen) (auto simp: keep_first_set)

lemma duplicated_from_distinct:
  "distinct xs \<Longrightarrow> set xs \<inter> set seen = {} \<Longrightarrow>
     duplicated_from seen xs = replicate (length xs) False"
  by (induction xs arbitrary: seen) auto

lemma mask_select_all:
  "length xs \<le> n \<Longrightarrow> mask_select (replicate n True) xs = xs"
proof (induction xs arbitrary: n)
  case Nil
  then show ?case by simp
next
  case (Cons x xs)
  then obtain m where "n = Suc m" by (cases n) auto
  with Cons show ?case by simp
qed

lemma length_mask_select_le: "length (mask_select bs xs) \<le> length (filter id bs)"
proof (induction bs arbitrary: xs)
  case Nil
  then show ?case by simp
next
  case (Cons b bs)
  then show ?case by (cases xs) (auto intro: le_SucI)
qed

lemma length_mask_select_eq:
  "length xs = length bs \<Longrightarrow> length (mask_select bs xs) = length (filter id bs)"
proof (induction bs arbitrary: xs)
  case Nil
  then show ?case by simp
next
  case (Cons b bs)
  then show ?case by (cases xs) auto
qed

lemma length_filter_Not:
  "length (filter id (map Not bs)) = length bs - length (filter id bs)"
proof (induction bs)
  case Nil
  then show ?case by simp
next
  case (Cons b bs)
  have "length (filter id bs) \<le> length bs" by simp
  with Cons show ?case by (auto simp: Suc_diff_le)
qed

lemma duplicated_dedup:
  "duplicated (mask_select (map Not (duplicated xs)) xs) =
     replicate (length (mask_select (map Not (duplicated xs)) xs)) False"
  unfolding duplicated_def
  by (rule duplicated_from_distinct) (simp_all add: keep_first_distinct)

lemma keep_first_all [simp]:
  "set (filas (drop_duplicates d)) = set (filas d)"
  by (simp add: drop_duplicates_def Let_def duplicated_def keep_first_set)

section \<open>What the cleaning cell leaves behind\<close>

lemma filas_of_steps [simp]:
  "filas (normalize_tipo U d) =
     map (\<lambda>r. r\<lparr>tipo_vehiculo := map_option (capitalize U \<circ> strip U) (tipo_vehiculo r)\<rparr>) (filas d)"
  "filas (fillna_duracion v d) =
     map (\<lambda>r. r\<lparr>duracion_dias := fillna v (duracion_dias r)\<rparr>) (filas d)"
  "filas (fillna_zona z d) =
     map (\<lambda>r. r\<lparr>zona_circulacion := fillna (Some z) (zona_circulacion r)\<rparr>) (filas d)"
  "filas (replace_negative v d) =
     map (\<lambda>r. if negative (duracion_dias r) then r\<lparr>duracion_dias := v\<rparr> else r) (filas d)"
  by (simp_all add: normalize_tipo_def fillna_duracion_def fillna_zona_def replace_negative_def)

lemma columns_of_steps [simp]:
  "columns (normalize_tipo U d) = setitem_columns (columns d) ''tipo_vehiculo''"
  "columns (fillna_duracion v d) = columns d"
  "columns (fillna_zona z d) = columns d"
  "columns (replace_negative v d) = columns d"
  "columns (drop_duplicates d) = columns d"
  by (simp_all add: normalize_tipo_def fillna_duracion_def fillna_zona_def replace_negative_def
      drop_duplicates_def Let_def)

lemma index_of_steps [simp]:
  "index (normalize_tipo U d) = index d"
  "index (fillna_duracion v d) = index d"
  "index (fillna_zona z d) = index d"
  "index (replace_negative v d) = index d"
  by (simp_all add: normalize_tipo_def fillna_duracion_def fillna_zona_def replace_negative_def)

lemma clean_cell_Inr:
  assumes ok: "clean_cell U nb = Inr nb'"
  defines "d1 \<equiv> drop_duplicates (df nb)"
  defines "med \<equiv> median (map duracion_dias (filas d1))"
  obtains zona where
    "getitem0 (mode (map zona_circulacion (filas d1))) = Inr zona"
    "median_duracion nb' = Some med"
    "most_frequent_zona nb' = Some zona"
    "columns (df nb') = columns (df nb)"
    "str_accessor_ok (map tipo_vehiculo (filas d1))"
    "map tipo_vehiculo (filas (df nb')) =
       map (\<lambda>r. map_option (capitalize U \<circ> strip U) (tipo_vehiculo r)) (filas d1)"
    "map duracion_dias (filas (df nb')) =
       map (\<lambda>r. if negative (fillna med (duracion_dias r)) then med
                 else fillna med (duracion_dias r)) (filas d1)"
    "map zona_circulacion (filas (df nb')) =
       map (\<lambda>r. fillna (Some zona) (zona_circulacion r)) (filas d1)"
    "map otras (filas (df nb')) = map otras (filas d1)"
    "limpio_csv nb' = limpio_csv nb"
proof -
  have c1: "''tipo_vehiculo'' \<in> set (columns d1)"
    using ok unfolding clean_cell_def d1_def Let_def by (auto split: if_splits)
  have acc: "str_accessor_ok (map tipo_vehiculo (filas d1))"
    using ok unfolding clean_cell_def d1_def Let_def by (auto split: if_splits)
  have cols: "setitem_columns (columns d1) ''tipo_vehiculo'' = columns d1"
    using c1 by (simp add: setitem_columns_def)
  have dur: "map duracion_dias (filas (normalize_tipo U d1)) = map duracion_dias (filas d1)"
    by simp
  have zon: "map zona_circulacion (filas (fillna_duracion med (normalize_tipo U d1))) =
             map zona_circulacion (filas d1)"
    by simp
  from ok c1 acc obtain zona where
    z: "getitem0 (mode (map zona_circulacion (filas d1))) = Inr zona" and
    nb': "nb' = nb\<lparr>df := replace_negative med (fillna_zona zona (fillna_duracion med (normalize_tipo U d1))),
                  median_duracion := Some med, most_frequent_zona := Some zona,
                  stdout := stdout nb @ [Registros (length (filas d1))]\<rparr>"
    unfolding clean_cell_def Let_def d1_def [symmetric] dur zon med_def [symmetric]
    by (auto split: if_splits sum.splits)
  show thesis
  proof (rule that [of zona])
    show "getitem0 (mode (map zona_circulacion (filas d1))) = Inr zona" by (rule z)
    show "median_duracion nb' = Some med" by (simp add: nb')
    show "most_frequent_zona nb' = Some zona" by (simp add: nb')
    show "columns (df nb') = columns (df nb)" by (simp add: nb' cols) (simp add: d1_def)
    show "str_accessor_ok (map tipo_vehiculo (filas d1))" by (rule acc)
    show "map tipo_vehiculo (filas (df nb')) =
       map (\<lambda>r. map_option (capitalize U \<circ> strip U) (tipo_vehiculo r)) (filas d1)"
      by (simp add: nb' o_def)
    show "map duracion_dias (filas (df nb')) =
       map (\<lambda>r. if negative (fillna med (duracion_dias r)) then med
                 else fillna med (duracion_dias r)) (filas d1)"
      by (simp add: nb' o_def)
    show "map zona_circulacion (filas (df nb')) =
       map (\<lambda>r. fillna (Some zona) (zona_circulacion r)) (filas d1)"
      by (simp add: nb' o_def)
    show "map otras (filas (df nb')) = map otras (filas d1)"
      by (simp add: nb' o_def)
    show "limpio_csv nb' = limpio_csv nb" by (simp add: nb')
  qed
qed

lemma run_all_Inr:
  assumes "run_all U nb = Inr nb'"
  obtains nb1 nb2 where
    "inspect_cell nb = Inr nb1" "df nb1 = df nb"
    "clean_cell U nb1 = Inr nb2"
    "limpio_csv nb' = Some (to_csv (df nb2) False)" "df nb' = df nb2"
proof -
  from assms obtain nb1 nb2 where
    i: "inspect_cell nb = Inr nb1" and c: "clean_cell U nb1 = Inr nb2" and v: "verify_cell nb2 = Inr nb'"
    unfolding run_all_def by (auto split: sum.splits)
  have "df nb1 = df nb"
    using i unfolding inspect_cell_def Let_def by (auto split: if_splits)
  moreover have "limpio_csv nb' = Some (to_csv (df nb2) False)" "df nb' = df nb2"
    using v unfolding verify_cell_def Let_def by (auto split: if_splits)
  ultimately show thesis using i c that by blast
qed

section \<open>The worked tables, evaluated\<close>

lemma inspect_permisos: "inspect_cell (loaded permisos) = Inr permisos_inspeccionados"
  by code_simp

lemma clean_permisos: "clean_cell latin1 (loaded permisos) = Inr permisos_tras_limpieza"
  by code_simp

lemma run_permisos: "run_all latin1 (loaded permisos) = Inr permisos_final"
  by code_simp

section \<open>Rows kept by deduplication\<close>

lemma nths_cong_below:
  "(\<And>i. i < length xs \<Longrightarrow> (i \<in> A) = (i \<in> B)) \<Longrightarrow> nths xs A = nths xs B"
  unfolding nths_def
  by (intro arg_cong [where f = "map fst"] filter_cong refl) (auto simp: set_zip)

lemma seen_before_conv:
  "i < length xs \<Longrightarrow> (xs ! i \<in> set (take i xs)) = (\<exists>j<i. xs ! j = xs ! i)"
  by (auto simp: in_set_conv_nth)

lemma filas_drop_duplicates_nths:
  "filas (drop_duplicates d) = nths (filas d) {i. \<forall>j<i. filas d ! j \<noteq> filas d ! i}"
proof -
  have "filas (drop_duplicates d) =
          nths (filas d) {i. filas d ! i \<notin> set [] \<union> set (take i (filas d))}"
    by (simp add: drop_duplicates_def Let_def duplicated_def keep_first_nths)
  also have "\<dots> = nths (filas d) {i. \<forall>j<i. filas d ! j \<noteq> filas d ! i}"
    by (rule nths_cong_below) (simp add: seen_before_conv)
  finally show ?thesis .
qed

lemma count_duplicated:
  "length (filter id (duplicated xs)) = card {i. i < length xs \<and> (\<exists>j<i. xs ! j = xs ! i)}"
proof -
  have "{i. i < length (duplicated xs) \<and> id (duplicated xs ! i)} =
        {i. i < length xs \<and> (\<exists>j<i. xs ! j = xs ! i)}"
    by (auto simp: duplicated_def duplicated_from_nth seen_before_conv)
  then show ?thesis
    by (simp only: length_filter_conv_card)
qed

lemma length_filas_drop_duplicates:
  "length (filas (drop_duplicates d)) =
     length (filas d) - card {i. i < length (filas d) \<and> (\<exists>j<i. filas d ! j = filas d ! i)}"
proof -
  have "length (filas (drop_duplicates d)) = length (filter id (map Not (duplicated (filas d))))"
    by (simp add: drop_duplicates_def Let_def length_mask_select_eq duplicated_def)
  also have "\<dots> = length (filas d) - length (filter id (duplicated (filas d)))"
    using length_filter_Not [of "duplicated (filas d)"] by (simp add: duplicated_def)
  finally show ?thesis by (simp only: count_duplicated)
qed

lemma run_all_output:
  assumes "run_all U nb = Inr nb'"
  obtains nb2 :: "('z :: linorder) notebook" where
    "limpio_csv nb' = Some (to_csv (df nb2) False)"
    "columns (df nb2) = columns (df nb)"
    "map tipo_vehiculo (filas (df nb2)) =
       map (\<lambda>r. map_option (capitalize U \<circ> strip U) (tipo_vehiculo r)) (filas (drop_duplicates (df nb)))"
    "map otras (filas (df nb2)) = map otras (filas (drop_duplicates (df nb)))"
proof -
  from assms obtain nb1 nb2 where
    i: "df nb1 = df nb" and c: "clean_cell U nb1 = Inr nb2" and
    o: "limpio_csv nb' = Some (to_csv (df nb2) False)"
    by (rule run_all_Inr)
  from c show thesis
    by (rule clean_cell_Inr) (rule that [of nb2], simp_all add: o i)
qed

section \<open>Signs under rounding\<close>

lemma f64_less_simps [simp]:
  "Fin a < Fin b \<longleftrightarrow> a < b"
  "NegInf < Fin a" "Fin a < PosInf" "NegInf < PosInf"
  "\<not> Fin a < NegInf" "\<not> PosInf < y" "\<not> y < NegInf"
  by (cases y; auto simp: less_f64_def)+

lemma pow2_pos: "0 < pow2 e"
  by (simp add: pow2_def)

lemma round_half_even_nonneg: "0 \<le> x \<Longrightarrow> 0 \<le> round_half_even x"
proof -
  assume "0 \<le> x"
  then have "0 \<le> \<lfloor>x\<rfloor>" by simp
  then show ?thesis
    by (simp add: round_half_even_def Let_def)
qed

lemma round64_nonneg: "0 \<le> x \<Longrightarrow> Fin 0 \<le> round64 x"
proof -
  assume x: "0 \<le> x"
  define q where "q = pow2 (max (ilog2 x) (- 1022) - 52)"
  have "0 < q" unfolding q_def by (rule pow2_pos)
  with x have "0 \<le> x / q" by simp
  then have "0 \<le> round_half_even (x / q)" by (rule round_half_even_nonneg)
  with \<open>0 < q\<close> have "0 \<le> of_int (round_half_even (x / q)) * q" by simp
  with x show ?thesis
    unfolding round64_def Let_def q_def [symmetric] by auto
qed

lemma fadd_nonneg:
  "Fin 0 \<le> a \<Longrightarrow> Fin 0 \<le> b \<Longrightarrow> \<exists>s. fadd a b = Some s \<and> Fin 0 \<le> s"
  by (cases a; cases b) (simp_all add: round64_nonneg)

lemma fhalf_nonneg: "Fin 0 \<le> a \<Longrightarrow> Fin 0 \<le> fhalf a"
  by (cases a) (simp_all add: round64_nonneg)

lemma fadd_None:
  "fadd a b = None \<Longrightarrow> (a = NegInf \<and> b = PosInf) \<or> (a = PosInf \<and> b = NegInf)"
  by (cases a; cases b) simp_all

section \<open>Median, mode and strip\<close>

lemma sort_eq_Nil [simp]: "sort xs = [] \<longleftrightarrow> xs = []"
  by (metis length_sort length_0_conv)

lemma rev_strip_split:
  "rev (dropWhile P (rev t)) @ rev (takeWhile P (rev t)) = t"
proof -
  have "rev (takeWhile P (rev t) @ dropWhile P (rev t)) = t"
    by (simp only: takeWhile_dropWhile_id rev_rev_ident)
  then show ?thesis
    by (simp only: rev_append)
qed

lemma set_dropna: "set (dropna col) = {x. Some x \<in> set col}"
  by (induction col) (auto simp: dropna_def)

lemma dropna_Nil_iff: "dropna col = [] \<longleftrightarrow> (\<forall>v\<in>set col. v = None)"
  by (induction col) (auto simp: dropna_def)

lemma count_dropna: "count_list (dropna col) w = count_list col (Some w)"
  by (induction col) (auto simp: dropna_def)

lemma median_all_missing: "(\<forall>v\<in>set col. v = None) \<Longrightarrow> median col = None"
  by (simp add: median_def Let_def dropna_Nil_iff)

lemma median_None:
  assumes "median col = None"
  shows "(\<forall>v\<in>set col. v = None) \<or> (Some NegInf \<in> set col \<and> Some PosInf \<in> set col)"
proof (cases "dropna col = []")
  case True
  then show ?thesis by (simp add: dropna_Nil_iff)
next
  case False
  let ?vs = "sort (dropna col)"
  let ?n = "length ?vs"
  from False have n0: "0 < ?n" by simp
  with assms have ev: "even ?n" and
    add: "fadd (?vs ! (?n div 2 - 1)) (?vs ! (?n div 2)) = None"
    by (auto simp: median_def Let_def split: if_splits)
  from n0 have "?n div 2 - 1 < ?n" "?n div 2 < ?n" by arith+
  then have "?vs ! (?n div 2 - 1) \<in> set ?vs" "?vs ! (?n div 2) \<in> set ?vs"
    by (simp_all only: nth_mem)
  then have mem: "Some (?vs ! (?n div 2 - 1)) \<in> set col" "Some (?vs ! (?n div 2)) \<in> set col"
    by (simp_all add: set_dropna)
  from fadd_None [OF add] mem show ?thesis by auto
qed

lemma median_nonneg:
  assumes m: "median col = Some m" and pos: "\<forall>x\<in>set (dropna col). Fin 0 \<le> x"
  shows "Fin 0 \<le> m"
proof -
  let ?vs = "sort (dropna col)"
  let ?n = "length ?vs"
  have nth: "Fin 0 \<le> ?vs ! k" if "k < ?n" for k
  proof -
    from that have "?vs ! k \<in> set ?vs" by (rule nth_mem)
    with pos show ?thesis by simp
  qed
  from m have n0: "?n \<noteq> 0"
    by (auto simp: median_def Let_def split: if_splits)
  show ?thesis
  proof (cases "odd ?n")
    case True
    with m n0 have "m = ?vs ! (?n div 2)"
      by (simp add: median_def Let_def)
    moreover from n0 have "?n div 2 < ?n" by simp
    ultimately show ?thesis using nth by simp
  next
    case False
    with m n0 have eq: "map_option fhalf (fadd (?vs ! (?n div 2 - 1)) (?vs ! (?n div 2))) = Some m"
      by (simp add: median_def Let_def)
    from n0 have "0 < ?n" by simp
    then have "?n div 2 - 1 < ?n" "?n div 2 < ?n" by arith+
    then have "Fin 0 \<le> ?vs ! (?n div 2 - 1)" "Fin 0 \<le> ?vs ! (?n div 2)"
      using nth by blast+
    then obtain s where "fadd (?vs ! (?n div 2 - 1)) (?vs ! (?n div 2)) = Some s" "Fin 0 \<le> s"
      using fadd_nonneg by blast
    with eq show ?thesis
      by (auto simp: fhalf_nonneg)
  qed
qed

lemma mode_first:
  assumes z: "getitem0 (mode col) = Inr z"
  shows "Some z \<in> set col"
    and "count_list col (Some w) \<le> count_list col (Some z)"
    and "count_list col (Some w) = count_list col (Some z) \<Longrightarrow> z \<le> w"
proof -
  let ?vs = "dropna col"
  let ?top = "Max (set (map (count_list ?vs) ?vs))"
  let ?ms = "sort (remdups (filter (\<lambda>v. count_list ?vs v = ?top) ?vs))"
  from z have ne: "?vs \<noteq> []"
    by (auto simp: getitem0_def mode_def)
  then have mode: "mode col = ?ms"
    by (simp add: mode_def Let_def)
  with z obtain ms' where ms: "?ms = z # ms'"
    by (auto simp: getitem0_def split: list.splits)
  then have "z \<in> set ?ms" by simp
  then have zin: "z \<in> set ?vs" and ztop: "count_list ?vs z = ?top"
    by simp_all
  have top: "count_list ?vs v \<le> ?top" for v
  proof (cases "v \<in> set ?vs")
    case True
    then show ?thesis by (intro Max_ge) auto
  next
    case False
    then show ?thesis by simp
  qed
  from zin show "Some z \<in> set col"
    by (simp add: set_dropna)
  from top [of w] ztop show "count_list col (Some w) \<le> count_list col (Some z)"
    by (simp add: count_dropna)
  show "z \<le> w" if "count_list col (Some w) = count_list col (Some z)"
  proof -
    from that ztop have wtop: "count_list ?vs w = ?top"
      by (simp add: count_dropna)
    from zin have "count_list ?vs z \<noteq> 0"
      by (simp add: count_list_0_iff)
    with ztop wtop have "w \<in> set ?vs"
      by (metis count_list_0_iff)
    with wtop have "w \<in> set ?ms" by simp
    moreover have "sorted ?ms" by simp
    ultimately show ?thesis
      unfolding ms by auto
  qed
qed

lemma mode_exists:
  "(\<exists>z. getitem0 (mode col) = Inr z) \<longleftrightarrow> (\<exists>v\<in>set col. v \<noteq> None)"
proof -
  let ?vs = "dropna col"
  let ?top = "Max (set (map (count_list ?vs) ?vs))"
  have "filter (\<lambda>v. count_list ?vs v = ?top) ?vs \<noteq> []" if "?vs \<noteq> []"
  proof -
    from that have "?top \<in> set (map (count_list ?vs) ?vs)"
      by (intro Max_in) auto
    then obtain v where "v \<in> set ?vs" "count_list ?vs v = ?top"
      by auto
    then show ?thesis
      by (auto simp: filter_empty_conv)
  qed
  then have "mode col = [] \<longleftrightarrow> ?vs = []"
    by (auto simp: mode_def Let_def)
  then show ?thesis
    by (auto simp: getitem0_def dropna_Nil_iff split: list.splits)
qed

lemma mode_all_missing:
  "(\<forall>v\<in>set col. v = None) \<Longrightarrow> getitem0 (mode col) = Inl (KeyError ''0'')"
  by (simp add: mode_def getitem0_def dropna_Nil_iff [symmetric])

lemma strip_decomp:
  "\<exists>l r. s = l @ strip U s @ r \<and> (\<forall>c\<in>set l. isspace U c) \<and> (\<forall>c\<in>set r. isspace U c)"
proof -
  let ?t = "dropWhile (isspace U) s"
  let ?l = "takeWhile (isspace U) s"
  let ?r = "rev (takeWhile (isspace U) (rev ?t))"
  have t: "?t = strip U s @ ?r"
    unfolding strip_def by (rule rev_strip_split [symmetric])
  have "s = ?l @ ?t" by simp
  with t have "s = ?l @ strip U s @ ?r" by simp
  moreover have "\<forall>c\<in>set ?l. isspace U c" "\<forall>c\<in>set ?r. isspace U c"
    by (auto dest: set_takeWhileD)
  ultimately show ?thesis by blast
qed

lemma strip_ends:
  assumes "strip U s \<noteq> []"
  shows "\<not> isspace U (hd (strip U s))" and "\<not> isspace U (last (strip U s))"
proof -
  let ?t = "dropWhile (isspace U) s"
  let ?u = "dropWhile (isspace U) (rev ?t)"
  from assms have u: "?u \<noteq> []" by (simp add: strip_def)
  then have "\<not> isspace U (hd ?u)" by (rule hd_dropWhile)
  then show "\<not> isspace U (last (strip U s))"
    by (simp add: strip_def last_rev)
  have t: "?t = strip U s @ rev (takeWhile (isspace U) (rev ?t))"
    unfolding strip_def by (rule rev_strip_split [symmetric])
  with assms have "hd ?t = hd (strip U s)"
    by (metis hd_append2)
  moreover from assms have "strip U s @ rev (takeWhile (isspace U) (rev ?t)) \<noteq> []"
    by simp
  with t have "?t \<noteq> []" by metis
  then have "\<not> isspace U (hd ?t)" by (rule hd_dropWhile)
  ultimately show "\<not> isspace U (hd (strip U s))" by simp
qed

lemma negative_fillna:
  "nonnegative (if negative (fillna med v) then med else fillna med v) \<longleftrightarrow>
     (case med of None \<Rightarrow> nonnegative v | Some m \<Rightarrow> Fin 0 \<le> m \<or> nonnegative v)"
  by (cases v; cases med) (auto simp: negative_def nonnegative_def fillna_def)

lemma map_duracion_congr:
  "map (\<lambda>r. g (duracion_dias r)) rows = map g (map duracion_dias rows)"
  by (simp add: o_def)

lemma fill_None_iff:
  "(if negative (fillna med v) then med else fillna med v) = None \<longleftrightarrow>
     med = None \<and> (v = None \<or> negative v)"
  by (cases v; cases med) (simp_all add: fillna_def negative_def)

section \<open>When the cleaning cell completes\<close>

lemma clean_cell_nonempty:
  assumes "clean_cell U nb = Inr nb'"
  shows "\<exists>r\<in>set (filas (df nb)). zona_circulacion r \<noteq> None"
proof -
  from assms obtain zona where
    "getitem0 (mode (map zona_circulacion (filas (drop_duplicates (df nb))))) = Inr zona"
    by (rule clean_cell_Inr)
  then have "\<exists>v\<in>set (map zona_circulacion (filas (drop_duplicates (df nb)))). v \<noteq> None"
    using mode_exists by blast
  then show ?thesis by simp
qed

lemma all_set_map: "(\<forall>r\<in>set rows. P (f r)) \<longleftrightarrow> (\<forall>v\<in>set (map f rows). P v)"
  by simp

lemma clean_cell_cases:
  "clean_cell U nb =
     (if ''tipo_vehiculo'' \<notin> set (columns (df nb)) then Inl (KeyError ''tipo_vehiculo'')
      else if \<not> str_accessor_ok (map tipo_vehiculo (filas (drop_duplicates (df nb))))
      then Inl AttributeError
      else if ''duracion_dias'' \<notin> set (columns (df nb)) then Inl (KeyError ''duracion_dias'')
      else if ''zona_circulacion'' \<notin> set (columns (df nb))
      then Inl (KeyError ''zona_circulacion'')
      else (case getitem0 (mode (map zona_circulacion (filas (drop_duplicates (df nb))))) of
              Inl e \<Rightarrow> Inl e
            | Inr zona \<Rightarrow> clean_cell U nb))"
proof -
  have zon: "map zona_circulacion
               (filas (fillna_duracion med (normalize_tipo U (drop_duplicates (df nb))))) =
             map zona_circulacion (filas (drop_duplicates (df nb)))" for med
    by simp
  show ?thesis
    unfolding clean_cell_def Let_def zon
    by (cases "getitem0 (mode (map zona_circulacion (filas (drop_duplicates (df nb)))))")
       (auto simp: setitem_columns_def)
qed

lemma clean_cell_completes_iff:
  "(\<exists>nb'. clean_cell U nb = Inr nb') \<longleftrightarrow>
     ''tipo_vehiculo'' \<in> set (columns (df nb)) \<and>
     ''duracion_dias'' \<in> set (columns (df nb)) \<and>
     ''zona_circulacion'' \<in> set (columns (df nb)) \<and>
     str_accessor_ok (map tipo_vehiculo (filas (drop_duplicates (df nb)))) \<and>
     (\<exists>r\<in>set (filas (df nb)). zona_circulacion r \<noteq> None)"
proof -
  define col where "col = map zona_circulacion (filas (drop_duplicates (df nb)))"
  have zon: "map zona_circulacion
               (filas (fillna_duracion med (normalize_tipo U (drop_duplicates (df nb))))) = col" for med
    by (simp add: col_def)
  have ex: "(\<exists>z. getitem0 (mode col) = Inr z) \<longleftrightarrow> (\<exists>r\<in>set (filas (df nb)). zona_circulacion r \<noteq> None)"
    unfolding mode_exists by (simp add: col_def)
  have "(\<exists>nb'. clean_cell U nb = Inr nb') \<longleftrightarrow>
     ''tipo_vehiculo'' \<in> set (columns (df nb)) \<and>
     ''duracion_dias'' \<in> set (columns (df nb)) \<and>
     ''zona_circulacion'' \<in> set (columns (df nb)) \<and>
     str_accessor_ok (map tipo_vehiculo (filas (drop_duplicates (df nb)))) \<and>
     (\<exists>z. getitem0 (mode col) = Inr z)"
    unfolding clean_cell_def Let_def zon
    by (cases "getitem0 (mode col)") (auto simp: setitem_columns_def)
  then show ?thesis
    by (simp only: ex)
qed

lemma clean_cell_no_zona:
  assumes "''tipo_vehiculo'' \<in> set (columns (df nb))"
    and "''duracion_dias'' \<in> set (columns (df nb))"
    and "''zona_circulacion'' \<in> set (columns (df nb))"
    and "str_accessor_ok (map tipo_vehiculo (filas (drop_duplicates (df nb))))"
    and "\<forall>r\<in>set (filas (df nb)). zona_circulacion r = None"
  shows "clean_cell U nb = Inl (KeyError ''0'')"
proof -
  have "\<forall>v\<in>set (map zona_circulacion (filas (drop_duplicates (df nb)))). v = None"
    using assms(5) by simp
  then have "getitem0 (mode (map zona_circulacion (filas (drop_duplicates (df nb))))) =
      Inl (KeyError ''0'')"
    by (rule mode_all_missing)
  with assms(1-4) show ?thesis
    by (subst clean_cell_cases) simp
qed

section \<open>More worked tables, evaluated\<close>

lemma clean_permisos_empate:
  "map_sum id (\<lambda>nb. (most_frequent_zona nb, map zona_circulacion (filas (df nb))))
     (clean_cell latin1 (loaded permisos_empate)) =
   Inr (Some (str_of ''A''), [Some (str_of ''B''), Some (str_of ''A''), Some (str_of ''A'')])"
  by code_simp

lemma clean_permisos_zona_numerica:
  "map_sum id (\<lambda>nb. (most_frequent_zona nb, map zona_circulacion (filas (df nb))))
     (clean_cell latin1 (loaded permisos_zona_numerica)) =
   Inr (Some (Fin 9), [Some (Fin 10), Some (Fin 9), Some (Fin 9)])"
  by code_simp

lemma clean_permisos_infinitos:
  "map_sum id (\<lambda>nb. (median_duracion nb, map duracion_dias (filas (df nb))))
     (clean_cell latin1 (loaded permisos_infinitos)) =
   Inr (Some None, [None, Some PosInf])"
  by code_simp

lemma clean_permisos_sin_zona:
  "clean_cell latin1 (loaded permisos_sin_zona) = Inl (KeyError ''0'')"
  by code_simp

lemma capitalize_latin1_camion:
  "capitalize latin1 (strip latin1 [160, 67, 65, 77, 73, 211, 78, 32]) =
     [67, 97, 109, 105, 243, 110]"
  by code_simp

lemma round64_examples:
  "round64 (1 / 10) = Fin (3602879701896397 / 36028797018963968)"
  "round64 (2 ^ 53 + 1) = Fin (2 ^ 53)"
  by code_simp+

section \<open>Imputation of \<^verbatim>\<open>duracion_dias\<close>\<close>

text \<open>
  C1 (as amended). When the deduplicated table has the durations 5, -3, missing, 7, 9 and the
  cleaning cell completes, \<^verbatim>\<open>median_duracion\<close> is 6: the median of the four values that are
  present, -3, 5, 7, 9, the negative one included, which is the mean of 5 and 7. After the
  cell the row that had no duration and the row that had -3 both hold 6.
\<close>

theorem median_example:
  "map duracion_dias (filas (drop_duplicates (df nb))) =
     [Some (Fin 5), Some (Fin (- 3)), None, Some (Fin 7), Some (Fin 9)]
   \<Longrightarrow> clean_cell U nb = Inr nb'
   \<Longrightarrow> median_duracion nb' = Some (Some (Fin 6)) \<and>
       map duracion_dias (filas (df nb')) =
         [Some (Fin 5), Some (Fin 6), Some (Fin 6), Some (Fin 7), Some (Fin 9)]"
proof -
  define rows where "rows = filas (drop_duplicates (df nb))"
  define med where "med = median (map duracion_dias rows)"
  define g where "g = (\<lambda>v. if negative (fillna med v) then med else fillna med v)"
  assume "map duracion_dias (filas (drop_duplicates (df nb))) =
            [Some (Fin 5), Some (Fin (- 3)), None, Some (Fin 7), Some (Fin 9)]"
  then have col: "map duracion_dias rows =
      [Some (Fin 5), Some (Fin (- 3)), None, Some (Fin 7), Some (Fin 9)]"
    by (simp only: rows_def)
  assume "clean_cell U nb = Inr nb'"
  then obtain zona :: "'a :: linorder" where
    m: "median_duracion nb' = Some med" and
    d: "map duracion_dias (filas (df nb')) = map (\<lambda>r. g (duracion_dias r)) rows"
    unfolding rows_def med_def g_def by (rule clean_cell_Inr)
  have "median [Some (Fin 5), Some (Fin (- 3)), None, Some (Fin 7), Some (Fin 9)] = Some (Fin 6)"
    by code_simp
  then have med: "med = Some (Fin 6)"
    unfolding med_def col .
  have "map duracion_dias (filas (df nb')) = map g (map duracion_dias rows)"
    unfolding d by (rule map_duracion_congr)
  also have "\<dots> = [Some (Fin 5), Some (Fin 6), Some (Fin 6), Some (Fin 7), Some (Fin 9)]"
    unfolding col by (simp add: g_def med negative_def fillna_def)
  finally show ?thesis
    using m med by simp
qed

theorem median_example_witness:
  "map duracion_dias (filas (drop_duplicates (df (loaded permisos)))) =
     [Some (Fin 5), Some (Fin (- 3)), None, Some (Fin 7), Some (Fin 9)] \<and>
   clean_cell latin1 (loaded permisos) = Inr permisos_tras_limpieza \<and>
   median_duracion permisos_tras_limpieza = Some (Some (Fin 6)) \<and>
   map duracion_dias (filas (df permisos_tras_limpieza)) =
     [Some (Fin 5), Some (Fin 6), Some (Fin 6), Some (Fin 7), Some (Fin 9)]"
proof -
  have col: "map duracion_dias (filas (drop_duplicates (df (loaded permisos)))) =
     [Some (Fin 5), Some (Fin (- 3)), None, Some (Fin 7), Some (Fin 9)]"
    by code_simp
  from median_example [OF col clean_permisos] col clean_permisos show ?thesis
    by simp
qed

text \<open>
  C1 as the specification words it, with a median of 7 and both rows becoming 7, fails on
  the table \<open>permisos\<close>.
\<close>

theorem median_example_counterexample:
  "map duracion_dias (filas (drop_duplicates permisos)) =
     [Some (Fin 5), Some (Fin (- 3)), None, Some (Fin 7), Some (Fin 9)] \<and>
   map_sum id median_duracion (clean_cell latin1 (loaded permisos)) = Inr (Some (Some (Fin 6))) \<and>
   map_sum id median_duracion (clean_cell latin1 (loaded permisos)) \<noteq> Inr (Some (Some (Fin 7))) \<and>
   map_sum id (map duracion_dias \<circ> filas \<circ> df) (clean_cell latin1 (loaded permisos)) =
     Inr [Some (Fin 5), Some (Fin 6), Some (Fin 6), Some (Fin 7), Some (Fin 9)]"
  by code_simp

text \<open>
  C2 (as amended). When the cleaning cell completes, \<^verbatim>\<open>median_duracion\<close> is the median of
  the durations that are present in the deduplicated table, the negative ones included, and
  every row has a duration that is present and not negative exactly when that median is a
  number that is not negative. The cell keeps the rows of the deduplicated table, and a row
  whose duration was missing there holds \<^verbatim>\<open>median_duracion\<close> after the cell: the value the
  fill writes is the median, negative when the median is, and the later overwrite of
  negative values writes the same value again.
\<close>

theorem nonnegative_iff_median:
  "clean_cell U nb = Inr nb' \<Longrightarrow>
     median_duracion nb' =
       Some (median (map duracion_dias (filas (drop_duplicates (df nb))))) \<and>
     ((\<forall>r\<in>set (filas (df nb')). nonnegative (duracion_dias r)) \<longleftrightarrow>
        (\<exists>m. median_duracion nb' = Some (Some m) \<and> Fin 0 \<le> m)) \<and>
     length (filas (df nb')) = length (filas (drop_duplicates (df nb))) \<and>
     (\<forall>i<length (filas (drop_duplicates (df nb))).
        duracion_dias (filas (drop_duplicates (df nb)) ! i) = None \<longrightarrow>
        Some (duracion_dias (filas (df nb') ! i)) = median_duracion nb')"
proof -
  define rows where "rows = filas (drop_duplicates (df nb))"
  define med where "med = median (map duracion_dias rows)"
  define g where "g = (\<lambda>v. if negative (fillna med v) then med else fillna med v)"
  assume ok: "clean_cell U nb = Inr nb'"
  then obtain zona :: "'a :: linorder" where
    m: "median_duracion nb' = Some med" and
    d: "map duracion_dias (filas (df nb')) = map (\<lambda>r. g (duracion_dias r)) rows"
    unfolding rows_def med_def g_def by (rule clean_cell_Inr)
  from d have len: "length (filas (df nb')) = length rows"
    by (rule map_eq_imp_length_eq)
  have nth: "duracion_dias (filas (df nb') ! i) = g (duracion_dias (rows ! i))"
    if "i < length rows" for i
  proof -
    from that len have "duracion_dias (filas (df nb') ! i) = map duracion_dias (filas (df nb')) ! i"
      by simp
    also from that have "\<dots> = g (duracion_dias (rows ! i))"
      unfolding d by simp
    finally show ?thesis .
  qed
  have g_nonneg: "nonnegative (g v) \<longleftrightarrow>
      (case med of None \<Rightarrow> nonnegative v | Some x \<Rightarrow> Fin 0 \<le> x \<or> nonnegative v)" for v
    unfolding g_def by (rule negative_fillna)
  have "(\<forall>r\<in>set (filas (df nb')). nonnegative (duracion_dias r)) \<longleftrightarrow>
          (\<forall>v\<in>set (map duracion_dias (filas (df nb'))). nonnegative v)"
    by (rule all_set_map)
  also have "\<dots> \<longleftrightarrow> (\<forall>r\<in>set rows. nonnegative (g (duracion_dias r)))"
    unfolding d by simp
  finally have all: "(\<forall>r\<in>set (filas (df nb')). nonnegative (duracion_dias r)) \<longleftrightarrow>
             (\<forall>r\<in>set rows. nonnegative (g (duracion_dias r)))" .
  from clean_cell_nonempty [OF ok] obtain r0 where r0: "r0 \<in> set rows"
    unfolding rows_def by auto
  have iff: "(\<forall>r\<in>set rows. nonnegative (g (duracion_dias r))) \<longleftrightarrow>
             (\<exists>x. med = Some x \<and> Fin 0 \<le> x)"
  proof (cases med)
    case None
    have "\<exists>r\<in>set rows. \<not> nonnegative (duracion_dias r)"
    proof (cases "\<forall>v\<in>set (map duracion_dias rows). v = None")
      case True
      with r0 have "duracion_dias r0 = None" by simp
      then have "\<not> nonnegative (duracion_dias r0)"
        by (simp add: nonnegative_def)
      with r0 show ?thesis by blast
    next
      case False
      with median_None [of "map duracion_dias rows"] None
      have "Some NegInf \<in> set (map duracion_dias rows)"
        unfolding med_def by blast
      then obtain r where r: "r \<in> set rows" "duracion_dias r = Some NegInf"
        by auto
      then have "\<not> nonnegative (duracion_dias r)"
        by (simp add: nonnegative_def)
      with r(1) show ?thesis by blast
    qed
    then obtain r where "r \<in> set rows" "\<not> nonnegative (g (duracion_dias r))"
      using None by (auto simp: g_nonneg)
    with None show ?thesis by blast
  next
    case (Some x)
    show ?thesis
    proof (cases "Fin 0 \<le> x")
      case True
      with Some show ?thesis by (simp add: g_nonneg)
    next
      case False
      have "\<not> (\<forall>y\<in>set (dropna (map duracion_dias rows)). Fin 0 \<le> y)"
        using median_nonneg [of "map duracion_dias rows" x] Some False
        unfolding med_def by blast
      then obtain y where "Some y \<in> set (map duracion_dias rows)" "\<not> Fin 0 \<le> y"
        by (auto simp: set_dropna)
      then obtain r where r: "r \<in> set rows" "duracion_dias r = Some y" "\<not> Fin 0 \<le> y"
        by auto
      then have "\<not> nonnegative (duracion_dias r)"
        by (simp add: nonnegative_def)
      with Some False have "\<not> nonnegative (g (duracion_dias r))"
        by (simp add: g_nonneg)
      with r(1) Some False show ?thesis by blast
    qed
  qed
  have fill: "Some (duracion_dias (filas (df nb') ! i)) = median_duracion nb'"
    if "i < length rows" "duracion_dias (rows ! i) = None" for i
    using nth [OF that(1)] that(2) m by (simp add: g_def fillna_def)
  from all iff have "(\<forall>r\<in>set (filas (df nb')). nonnegative (duracion_dias r)) \<longleftrightarrow>
        (\<exists>x. median_duracion nb' = Some (Some x) \<and> Fin 0 \<le> x)"
    by (simp add: m)
  with len fill m show ?thesis
    unfolding rows_def med_def by blast
qed

theorem nonnegative_iff_median_witness:
  "clean_cell latin1 (loaded permisos) = Inr permisos_tras_limpieza \<and>
   median (map duracion_dias (filas (drop_duplicates (df (loaded permisos))))) = Some (Fin 6) \<and>
   median_duracion permisos_tras_limpieza = Some (Some (Fin 6)) \<and>
   list_all (\<lambda>r. nonnegative (duracion_dias r)) (filas (df permisos_tras_limpieza)) \<and>
   duracion_dias (filas (drop_duplicates (df (loaded permisos))) ! 2) = None \<and>
   duracion_dias (filas (df permisos_tras_limpieza) ! 2) = Some (Fin 6)"
proof -
  note inst = nonnegative_iff_median [OF clean_permisos]
  have med: "median_duracion permisos_tras_limpieza = Some (Some (Fin 6))"
    by (simp add: permisos_tras_limpieza_def)
  with inst have col: "median (map duracion_dias (filas (drop_duplicates (df (loaded permisos))))) =
      Some (Fin 6)"
    by simp
  from med have "\<exists>m. median_duracion permisos_tras_limpieza = Some (Some m) \<and> Fin 0 \<le> m"
    by simp
  with inst have "\<forall>r\<in>set (filas (df permisos_tras_limpieza)). nonnegative (duracion_dias r)"
    by (simp only:)
  then have all: "list_all (\<lambda>r. nonnegative (duracion_dias r)) (filas (df permisos_tras_limpieza))"
    by (simp only: list_all_iff)
  have i: "2 < length (filas (drop_duplicates (df (loaded permisos))))"
    and n: "duracion_dias (filas (drop_duplicates (df (loaded permisos))) ! 2) = None"
    by code_simp+
  from inst i n have "Some (duracion_dias (filas (df permisos_tras_limpieza) ! 2)) =
      median_duracion permisos_tras_limpieza"
    by blast
  with med have "duracion_dias (filas (df permisos_tras_limpieza) ! 2) = Some (Fin 6)"
    by simp
  with clean_permisos col med all n show ?thesis by simp
qed

text \<open>
  C2 as the specification words it fails on the table \<open>permisos_negativos\<close>: the median
  of -5, -3, -1 is -3, the fill writes -3 and every row ends with -3.
\<close>

theorem nonnegative_counterexample:
  "map duracion_dias (filas (drop_duplicates permisos_negativos)) =
     [Some (Fin (- 5)), None, Some (Fin (- 3)), Some (Fin (- 1))] \<and>
   map_sum id median_duracion (clean_cell latin1 (loaded permisos_negativos)) =
     Inr (Some (Some (Fin (- 3)))) \<and>
   map_sum id (map duracion_dias \<circ> filas \<circ> df) (clean_cell latin1 (loaded permisos_negativos)) =
     Inr [Some (Fin (- 3)), Some (Fin (- 3)), Some (Fin (- 3)), Some (Fin (- 3))] \<and>
   map_sum id (map (nonnegative \<circ> duracion_dias) \<circ> filas \<circ> df)
     (clean_cell latin1 (loaded permisos_negativos)) = Inr [False, False, False, False]"
  by code_simp

section \<open>Missing values\<close>

text \<open>
  C3 (as amended). When the cleaning cell completes, no row has a missing
  \<^verbatim>\<open>zona_circulacion\<close>, \<^verbatim>\<open>median_duracion\<close> is the median of the durations of the
  deduplicated table, and no row has a missing \<^verbatim>\<open>duracion_dias\<close> exactly when that median is
  not NaN. The median is NaN when every duration is missing (otherwise only when both
  infinities occur among the durations): then the fill changes nothing and the column
  still holds missing values; with every duration missing it is still empty throughout.
  Whether the cell completes does not depend on the durations: it completes exactly when
  the three columns exist, \<^verbatim>\<open>tipo_vehiculo\<close> passes the \<^verbatim>\<open>.str\<close> accessor and some zone is
  present. With the columns in place and no zone present it raises \<^verbatim>\<open>KeyError\<close> at
  \<^verbatim>\<open>mode()[0]\<close>.
\<close>

theorem no_missing_after_clean:
  "(clean_cell U nb = Inr nb' \<longrightarrow>
      (\<forall>r\<in>set (filas (df nb')). zona_circulacion r \<noteq> None) \<and>
      median_duracion nb' =
        Some (median (map duracion_dias (filas (drop_duplicates (df nb))))) \<and>
      ((\<forall>r\<in>set (filas (df nb')). duracion_dias r \<noteq> None) \<longleftrightarrow>
         median_duracion nb' \<noteq> Some None) \<and>
      (median_duracion nb' = Some None \<longrightarrow>
         (\<forall>r\<in>set (filas (df nb)). duracion_dias r = None) \<or>
         (\<exists>r\<in>set (filas (df nb)). duracion_dias r = Some NegInf) \<and>
         (\<exists>r\<in>set (filas (df nb)). duracion_dias r = Some PosInf)) \<and>
      ((\<forall>r\<in>set (filas (df nb)). duracion_dias r = None) \<longrightarrow>
         median_duracion nb' = Some None \<and>
         (\<forall>r\<in>set (filas (df nb')). duracion_dias r = None))) \<and>
   ((\<exists>nb'. clean_cell U nb = Inr nb') \<longleftrightarrow>
      ''tipo_vehiculo'' \<in> set (columns (df nb)) \<and>
      ''duracion_dias'' \<in> set (columns (df nb)) \<and>
      ''zona_circulacion'' \<in> set (columns (df nb)) \<and>
      str_accessor_ok (map tipo_vehiculo (filas (drop_duplicates (df nb)))) \<and>
      (\<exists>r\<in>set (filas (df nb)). zona_circulacion r \<noteq> None)) \<and>
   (''tipo_vehiculo'' \<in> set (columns (df nb)) \<and>
    ''duracion_dias'' \<in> set (columns (df nb)) \<and>
    ''zona_circulacion'' \<in> set (columns (df nb)) \<and>
    str_accessor_ok (map tipo_vehiculo (filas (drop_duplicates (df nb)))) \<and>
    (\<forall>r\<in>set (filas (df nb)). zona_circulacion r = None) \<longrightarrow>
      clean_cell U nb = Inl (KeyError ''0''))"
proof (intro conjI impI)
  show "(\<exists>nb'. clean_cell U nb = Inr nb') \<longleftrightarrow>
      ''tipo_vehiculo'' \<in> set (columns (df nb)) \<and>
      ''duracion_dias'' \<in> set (columns (df nb)) \<and>
      ''zona_circulacion'' \<in> set (columns (df nb)) \<and>
      str_accessor_ok (map tipo_vehiculo (filas (drop_duplicates (df nb)))) \<and>
      (\<exists>r\<in>set (filas (df nb)). zona_circulacion r \<noteq> None)"
    by (rule clean_cell_completes_iff)
next
  assume "''tipo_vehiculo'' \<in> set (columns (df nb)) \<and>
    ''duracion_dias'' \<in> set (columns (df nb)) \<and>
    ''zona_circulacion'' \<in> set (columns (df nb)) \<and>
    str_accessor_ok (map tipo_vehiculo (filas (drop_duplicates (df nb)))) \<and>
    (\<forall>r\<in>set (filas (df nb)). zona_circulacion r = None)"
  then show "clean_cell U nb = Inl (KeyError ''0'')"
    by (intro clean_cell_no_zona) simp_all
next
  assume ok: "clean_cell U nb = Inr nb'"
  define rows where "rows = filas (drop_duplicates (df nb))"
  define med where "med = median (map duracion_dias rows)"
  define g where "g = (\<lambda>v. if negative (fillna med v) then med else fillna med v)"
  from ok obtain zona where
    m: "median_duracion nb' = Some med" and
    d: "map duracion_dias (filas (df nb')) = map (\<lambda>r. g (duracion_dias r)) rows" and
    z: "map zona_circulacion (filas (df nb')) =
          map (\<lambda>r. fillna (Some zona) (zona_circulacion r)) rows"
    unfolding rows_def med_def g_def by (rule clean_cell_Inr)
  have g_None: "g v = None \<longleftrightarrow> med = None \<and> (v = None \<or> negative v)" for v
    unfolding g_def by (rule fill_None_iff)
  have rows: "set rows = set (filas (df nb))"
    by (simp add: rows_def)
  have "\<forall>v\<in>set (map zona_circulacion (filas (df nb'))). v \<noteq> None"
    unfolding z by (simp add: fillna_def split: option.splits)
  then show "\<forall>r\<in>set (filas (df nb')). zona_circulacion r \<noteq> None"
    by (simp only: all_set_map [symmetric])
  show "median_duracion nb' =
        Some (median (map duracion_dias (filas (drop_duplicates (df nb)))))"
    using m by (simp only: med_def rows_def)
  from clean_cell_nonempty [OF ok] obtain r0 where r0: "r0 \<in> set rows"
    unfolding rows by blast
  have medNone: "(\<forall>r\<in>set rows. duracion_dias r = None) \<or>
      (\<exists>r\<in>set rows. duracion_dias r = Some NegInf) \<and>
      (\<exists>r\<in>set rows. duracion_dias r = Some PosInf)" if "med = None"
  proof -
    from that have "median (map duracion_dias rows) = None"
      by (simp only: med_def)
    from median_None [OF this] show ?thesis
      by (auto simp: image_iff)
  qed
  have out: "(\<forall>r\<in>set (filas (df nb')). P (duracion_dias r)) \<longleftrightarrow>
             (\<forall>r\<in>set rows. P (g (duracion_dias r)))" for P
  proof -
    have "(\<forall>r\<in>set (filas (df nb')). P (duracion_dias r)) \<longleftrightarrow>
          (\<forall>v\<in>set (map duracion_dias (filas (df nb'))). P v)"
      by (rule all_set_map)
    also have "\<dots> \<longleftrightarrow> (\<forall>r\<in>set rows. P (g (duracion_dias r)))"
      unfolding d by simp
    finally show ?thesis .
  qed
  have "(\<forall>r\<in>set rows. g (duracion_dias r) \<noteq> None) \<longleftrightarrow> med \<noteq> None"
  proof (cases "med = None")
    case True
    have "\<exists>r\<in>set rows. duracion_dias r = None \<or> negative (duracion_dias r)"
    proof (cases "\<forall>r\<in>set rows. duracion_dias r = None")
      case True
      with r0 show ?thesis by blast
    next
      case False
      with medNone [OF \<open>med = None\<close>] obtain r where
        r: "r \<in> set rows" "duracion_dias r = Some NegInf"
        by blast
      then have "negative (duracion_dias r)"
        by (simp add: negative_def)
      with r(1) show ?thesis by blast
    qed
    with True show ?thesis
      by (auto simp: g_None)
  next
    case False
    then show ?thesis by (simp add: g_None)
  qed
  then show "(\<forall>r\<in>set (filas (df nb')). duracion_dias r \<noteq> None) \<longleftrightarrow>
         median_duracion nb' \<noteq> Some None"
    unfolding out [of "\<lambda>v. v \<noteq> None"] by (simp add: m)
  show "(\<forall>r\<in>set (filas (df nb)). duracion_dias r = None) \<or>
         (\<exists>r\<in>set (filas (df nb)). duracion_dias r = Some NegInf) \<and>
         (\<exists>r\<in>set (filas (df nb)). duracion_dias r = Some PosInf)"
    if "median_duracion nb' = Some None"
  proof -
    from that m have "med = None" by simp
    from medNone [OF this] show ?thesis
      unfolding rows .
  qed
  show "median_duracion nb' = Some None"
    if "\<forall>r\<in>set (filas (df nb)). duracion_dias r = None"
  proof -
    from that have "\<forall>v\<in>set (map duracion_dias rows). v = None"
      by (simp add: rows)
    then have "med = None"
      unfolding med_def by (rule median_all_missing)
    with m show ?thesis by simp
  qed
  show "\<forall>r\<in>set (filas (df nb')). duracion_dias r = None"
    if "\<forall>r\<in>set (filas (df nb)). duracion_dias r = None"
  proof -
    from that have all: "\<forall>r\<in>set rows. duracion_dias r = None"
      by (simp add: rows)
    then have "\<forall>v\<in>set (map duracion_dias rows). v = None"
      by simp
    then have "med = None"
      unfolding med_def by (rule median_all_missing)
    with all have "\<forall>r\<in>set rows. g (duracion_dias r) = None"
      by (simp add: g_None)
    then show ?thesis
      unfolding out [of "\<lambda>v. v = None"] .
  qed
qed

theorem no_missing_after_clean_witness:
  "clean_cell latin1 (loaded permisos) = Inr permisos_tras_limpieza \<and>
   median_duracion permisos_tras_limpieza = Some (Some (Fin 6)) \<and>
   list_all (\<lambda>r. zona_circulacion r \<noteq> None) (filas (df permisos_tras_limpieza)) \<and>
   list_all (\<lambda>r. duracion_dias r \<noteq> None) (filas (df permisos_tras_limpieza)) \<and>
   list_all (\<lambda>r. zona_circulacion r = None) (filas (df (loaded permisos_sin_zona))) \<and>
   clean_cell latin1 (loaded permisos_sin_zona) = Inl (KeyError ''0'')"
proof -
  note inst = no_missing_after_clean [of latin1 "loaded permisos" permisos_tras_limpieza]
  note comp = inst [THEN conjunct1, rule_format, OF clean_permisos]
  have med: "median_duracion permisos_tras_limpieza = Some (Some (Fin 6))"
    by (simp add: permisos_tras_limpieza_def)
  then have "median_duracion permisos_tras_limpieza \<noteq> Some None"
    by simp
  moreover from comp have "(\<forall>r\<in>set (filas (df permisos_tras_limpieza)). duracion_dias r \<noteq> None) \<longleftrightarrow>
      median_duracion permisos_tras_limpieza \<noteq> Some None"
    by blast
  ultimately have "\<forall>r\<in>set (filas (df permisos_tras_limpieza)). duracion_dias r \<noteq> None"
    by blast
  then have d: "list_all (\<lambda>r. duracion_dias r \<noteq> None) (filas (df permisos_tras_limpieza))"
    by (simp only: list_all_iff)
  from comp have "\<forall>r\<in>set (filas (df permisos_tras_limpieza)). zona_circulacion r \<noteq> None"
    by (rule conjunct1)
  then have z: "list_all (\<lambda>r. zona_circulacion r \<noteq> None) (filas (df permisos_tras_limpieza))"
    by (simp only: list_all_iff)
  have pre: "''tipo_vehiculo'' \<in> set (columns (df (loaded permisos_sin_zona)))"
    "''duracion_dias'' \<in> set (columns (df (loaded permisos_sin_zona)))"
    "''zona_circulacion'' \<in> set (columns (df (loaded permisos_sin_zona)))"
    "str_accessor_ok (map tipo_vehiculo (filas (drop_duplicates (df (loaded permisos_sin_zona)))))"
    "list_all (\<lambda>r. zona_circulacion r = None) (filas (df (loaded permisos_sin_zona)))"
    by code_simp+
  from pre(5) have "\<forall>r\<in>set (filas (df (loaded permisos_sin_zona))). zona_circulacion r = None"
    by (simp only: list_all_iff)
  with pre(1-4)
    no_missing_after_clean [of latin1 "loaded permisos_sin_zona" "loaded permisos_sin_zona",
      THEN conjunct2, THEN conjunct2]
  have k: "clean_cell latin1 (loaded permisos_sin_zona) = Inl (KeyError ''0'')"
    by blast
  from clean_permisos med z d pre(5) k show ?thesis
    by (simp only: simp_thms)
qed

text \<open>
  C3 as the specification words it fails on the table \<open>permisos_sin_duracion\<close>: the cell
  completes and both durations are still missing.
\<close>

theorem no_missing_counterexample:
  "map duracion_dias (filas permisos_sin_duracion) = [None, None] \<and>
   map_sum id median_duracion (clean_cell latin1 (loaded permisos_sin_duracion)) =
     Inr (Some None) \<and>
   map_sum id (map duracion_dias \<circ> filas \<circ> df) (clean_cell latin1 (loaded permisos_sin_duracion)) =
     Inr [None, None]"
  by code_simp

text \<open>
  C4 (as amended). When the cleaning cell completes, \<^verbatim>\<open>most_frequent_zona\<close> is a zone of
  the deduplicated table that no other zone outnumbers there, and among the zones that occur
  as often it is the least one in the order of the column's values, not the one met first:
  the order of strings (code points, a proper prefix first) for a text column, the numeric
  order for a column of numbers. Every missing zone becomes that value and every other zone
  stays.
\<close>

theorem mode_fill_smallest_of_ties:
  "clean_cell U nb = Inr nb' \<Longrightarrow>
     \<exists>z. most_frequent_zona nb' = Some z \<and>
         Some z \<in> set (map zona_circulacion (filas (drop_duplicates (df nb)))) \<and>
         (\<forall>w. count_list (map zona_circulacion (filas (drop_duplicates (df nb)))) (Some w)
               \<le> count_list (map zona_circulacion (filas (drop_duplicates (df nb)))) (Some z)) \<and>
         (\<forall>w. count_list (map zona_circulacion (filas (drop_duplicates (df nb)))) (Some w)
               = count_list (map zona_circulacion (filas (drop_duplicates (df nb)))) (Some z)
               \<longrightarrow> z \<le> w) \<and>
         map zona_circulacion (filas (df nb')) =
           map (\<lambda>v. case v of None \<Rightarrow> Some z | Some x \<Rightarrow> Some x)
               (map zona_circulacion (filas (drop_duplicates (df nb))))"
proof -
  define col where "col = map zona_circulacion (filas (drop_duplicates (df nb)))"
  assume "clean_cell U nb = Inr nb'"
  then obtain zona where
    g: "getitem0 (mode col) = Inr zona" and
    m: "most_frequent_zona nb' = Some zona" and
    z: "map zona_circulacion (filas (df nb')) =
          map (\<lambda>r. fillna (Some zona) (zona_circulacion r)) (filas (drop_duplicates (df nb)))"
    unfolding col_def by (rule clean_cell_Inr)
  have "map zona_circulacion (filas (df nb')) =
          map (\<lambda>v. case v of None \<Rightarrow> Some zona | Some x \<Rightarrow> Some x) col"
    unfolding z col_def by (simp add: fillna_def o_def)
  moreover have "Some zona \<in> set col"
    using g by (rule mode_first(1))
  moreover have "\<forall>w. count_list col (Some w) \<le> count_list col (Some zona)"
    using mode_first(2) [OF g] by blast
  moreover have "\<forall>w. count_list col (Some w) = count_list col (Some zona) \<longrightarrow> zona \<le> w"
    using mode_first(3) [OF g] by blast
  ultimately show ?thesis
    using m unfolding col_def by blast
qed

theorem mode_fill_smallest_of_ties_witness:
  "clean_cell latin1 (loaded permisos) = Inr permisos_tras_limpieza \<and>
   map zona_circulacion (filas (drop_duplicates (df (loaded permisos)))) =
     [Some (str_of ''B''), Some (str_of ''A''), None, Some (str_of ''A''), Some (str_of ''B'')] \<and>
   most_frequent_zona permisos_tras_limpieza = Some (str_of ''A'') \<and>
   map zona_circulacion (filas (df permisos_tras_limpieza)) =
     [Some (str_of ''B''), Some (str_of ''A''), Some (str_of ''A''), Some (str_of ''A''),
      Some (str_of ''B'')]"
proof -
  have col: "map zona_circulacion (filas (drop_duplicates (df (loaded permisos)))) =
     [Some (str_of ''B''), Some (str_of ''A''), None, Some (str_of ''A''), Some (str_of ''B'')]"
    by code_simp
  have m: "most_frequent_zona permisos_tras_limpieza = Some (str_of ''A'')"
    by (simp add: permisos_tras_limpieza_def)
  from mode_fill_smallest_of_ties [OF clean_permisos] obtain z where
    "most_frequent_zona permisos_tras_limpieza = Some z"
    "map zona_circulacion (filas (df permisos_tras_limpieza)) =
           map (\<lambda>v. case v of None \<Rightarrow> Some z | Some x \<Rightarrow> Some x)
               (map zona_circulacion (filas (drop_duplicates (df (loaded permisos)))))"
    by blast
  with m have "map zona_circulacion (filas (df permisos_tras_limpieza)) =
     [Some (str_of ''B''), Some (str_of ''A''), Some (str_of ''A''), Some (str_of ''A''),
      Some (str_of ''B'')]"
    unfolding col by simp
  with clean_permisos col m show ?thesis by (simp only: simp_thms)
qed

text \<open>
  C4 as the specification words it fails on the table \<open>permisos_empate\<close>, which has no
  repeated row: B and A occur once each, B is met first, and the missing zone is filled
  with A.
\<close>

theorem mode_first_encountered_counterexample:
  "duplicated (filas permisos_empate) = [False, False, False] \<and>
   map zona_circulacion (filas permisos_empate) =
     [Some (str_of ''B''), Some (str_of ''A''), None] \<and>
   spec_mode_first_encountered (map zona_circulacion (filas permisos_empate)) =
     Some (str_of ''B'') \<and>
   map_sum id most_frequent_zona (clean_cell latin1 (loaded permisos_empate)) =
     Inr (Some (str_of ''A'')) \<and>
   map_sum id (map zona_circulacion \<circ> filas \<circ> df) (clean_cell latin1 (loaded permisos_empate)) =
     Inr [Some (str_of ''B''), Some (str_of ''A''), Some (str_of ''A'')]"
  by code_simp

section \<open>Text normalization\<close>

text \<open>
  C5 (as amended). When the cleaning cell completes, each \<^verbatim>\<open>tipo_vehiculo\<close> that is present
  is the value of the deduplicated table stripped, with its first character in title case
  (upper case, for the letters that have one) and every later character in lower case, as
  the Unicode character database maps them; a missing value stays missing. Stripping
  removes a run of whitespace at each end and leaves a text that neither starts nor ends
  with whitespace.
\<close>

theorem tipo_vehiculo_capitalize:
  "clean_cell U nb = Inr nb' \<Longrightarrow>
     map tipo_vehiculo (filas (df nb')) =
       map (\<lambda>r. map_option
                  (\<lambda>s. case strip U s of
                          [] \<Rightarrow> []
                        | c # cs \<Rightarrow>
                            totitle U c @
                            concat (map (tolower_at U (strip U s)) [1..<length (strip U s)]))
                  (tipo_vehiculo r))
           (filas (drop_duplicates (df nb))) \<and>
     (\<forall>s. \<exists>l r. s = l @ strip U s @ r \<and> list_all (isspace U) l \<and> list_all (isspace U) r \<and>
               (strip U s = [] \<or>
                \<not> isspace U (hd (strip U s)) \<and> \<not> isspace U (last (strip U s))))"
proof -
  assume "clean_cell U nb = Inr nb'"
  then obtain zona :: "'a :: linorder" where
    "map tipo_vehiculo (filas (df nb')) =
       map (\<lambda>r. map_option (capitalize U \<circ> strip U) (tipo_vehiculo r))
         (filas (drop_duplicates (df nb)))"
    by (rule clean_cell_Inr)
  moreover have "capitalize U \<circ> strip U =
      (\<lambda>s. case strip U s of
              [] \<Rightarrow> []
            | c # cs \<Rightarrow>
                totitle U c @ concat (map (tolower_at U (strip U s)) [1..<length (strip U s)]))"
    by (simp add: fun_eq_iff capitalize_def)
  moreover have "\<exists>l r. s = l @ strip U s @ r \<and> list_all (isspace U) l \<and>
               list_all (isspace U) r \<and>
               (strip U s = [] \<or>
                \<not> isspace U (hd (strip U s)) \<and> \<not> isspace U (last (strip U s)))" for s
    using strip_decomp [of s U] strip_ends [of U s] unfolding list_all_iff by blast
  ultimately show ?thesis by simp
qed

theorem tipo_vehiculo_capitalize_witness:
  "clean_cell latin1 (loaded permisos) = Inr permisos_tras_limpieza \<and>
   map tipo_vehiculo (filas (drop_duplicates (df (loaded permisos)))) =
     [Some (str_of '' sUV ''), Some (str_of ''auto''), None, Some (str_of ''MOTO''),
      Some (str_of ''Camion '')] \<and>
   map tipo_vehiculo (filas (df permisos_tras_limpieza)) =
     [Some (str_of ''Suv''), Some (str_of ''Auto''), None, Some (str_of ''Moto''),
      Some (str_of ''Camion'')]"
proof -
  have col: "map tipo_vehiculo (filas (drop_duplicates (df (loaded permisos)))) =
     [Some (str_of '' sUV ''), Some (str_of ''auto''), None, Some (str_of ''MOTO''),
      Some (str_of ''Camion '')]"
    by code_simp
  have out: "map (map_option
        (\<lambda>s. case strip latin1 s of
                [] \<Rightarrow> []
              | c # cs \<Rightarrow>
                  totitle latin1 c @
                  concat (map (tolower_at latin1 (strip latin1 s)) [1..<length (strip latin1 s)])))
      [Some (str_of '' sUV ''), Some (str_of ''auto''), None, Some (str_of ''MOTO''),
       Some (str_of ''Camion '')]
     = [Some (str_of ''Suv''), Some (str_of ''Auto''), None, Some (str_of ''Moto''),
        Some (str_of ''Camion'')]"
    by code_simp
  have "map tipo_vehiculo (filas (df permisos_tras_limpieza)) =
       map (map_option
        (\<lambda>s. case strip latin1 s of
                [] \<Rightarrow> []
              | c # cs \<Rightarrow>
                  totitle latin1 c @
                  concat (map (tolower_at latin1 (strip latin1 s)) [1..<length (strip latin1 s)])))
         (map tipo_vehiculo (filas (drop_duplicates (df (loaded permisos)))))"
    using tipo_vehiculo_capitalize [OF clean_permisos] by (simp add: o_def)
  then have "map tipo_vehiculo (filas (df permisos_tras_limpieza)) =
     [Some (str_of ''Suv''), Some (str_of ''Auto''), None, Some (str_of ''Moto''),
      Some (str_of ''Camion'')]"
    unfolding col out .
  with clean_permisos col show ?thesis by (simp only: simp_thms)
qed

text \<open>
  C5 as the specification words it, with the letters after the first unchanged in case,
  fails on the table \<open>permisos_empate\<close>: \<^verbatim>\<open>" sUV "\<close> becomes \<^verbatim>\<open>"Suv"\<close> and \<^verbatim>\<open>"MOTO"\<close>
  becomes \<^verbatim>\<open>"Moto"\<close>.
\<close>

theorem tipo_vehiculo_case_counterexample:
  "map tipo_vehiculo (filas (drop_duplicates permisos_empate)) =
     [Some (str_of '' sUV ''), Some (str_of ''MOTO''), Some (str_of ''auto'')] \<and>
   map (map_option (spec_capitalize_first latin1 \<circ> strip latin1))
       (map tipo_vehiculo (filas (drop_duplicates permisos_empate))) =
     [Some (str_of ''SUV''), Some (str_of ''MOTO''), Some (str_of ''Auto'')] \<and>
   map_sum id (map tipo_vehiculo \<circ> filas \<circ> df) (clean_cell latin1 (loaded permisos_empate)) =
     Inr [Some (str_of ''Suv''), Some (str_of ''Moto''), Some (str_of ''Auto'')]"
  by code_simp

section \<open>Deduplication\<close>

text \<open>
  C6. \<^verbatim>\<open>drop_duplicates\<close> keeps exactly the rows that differ from every earlier row, in
  their order: a row equal on all columns to an earlier one goes, the first of each group of
  equal rows stays. When the notebook runs to its end, the written file has as many records
  as the deduplicated table, which is the number of input rows minus the number of rows
  that repeat an earlier one; no other cell adds or drops a row.
\<close>

theorem dedup_exact_and_row_count:
  "filas (drop_duplicates (df nb)) =
     nths (filas (df nb)) {i. \<forall>j<i. filas (df nb) ! j \<noteq> filas (df nb) ! i} \<and>
   (run_all U nb = Inr nb' \<longrightarrow>
     (\<exists>c. limpio_csv nb' = Some c \<and>
          length (records c) = length (filas (drop_duplicates (df nb))) \<and>
          length (records c) =
            length (filas (df nb)) -
            card {i. i < length (filas (df nb)) \<and> (\<exists>j<i. filas (df nb) ! j = filas (df nb) ! i)}))"
proof (intro conjI impI)
  show "filas (drop_duplicates (df nb)) =
     nths (filas (df nb)) {i. \<forall>j<i. filas (df nb) ! j \<noteq> filas (df nb) ! i}"
    by (rule filas_drop_duplicates_nths)
next
  assume "run_all U nb = Inr nb'"
  then obtain nb2 :: "('a :: linorder) notebook" where
    o: "limpio_csv nb' = Some (to_csv (df nb2) False)" and
    m: "map otras (filas (df nb2)) = map otras (filas (drop_duplicates (df nb)))"
    by (rule run_all_output)
  from m have "length (filas (df nb2)) = length (filas (drop_duplicates (df nb)))"
    by (rule map_eq_imp_length_eq)
  then have len: "length (records (to_csv (df nb2) False)) = length (filas (drop_duplicates (df nb)))"
    by (simp add: to_csv_def)
  show "\<exists>c. limpio_csv nb' = Some c \<and>
          length (records c) = length (filas (drop_duplicates (df nb))) \<and>
          length (records c) =
            length (filas (df nb)) -
            card {i. i < length (filas (df nb)) \<and> (\<exists>j<i. filas (df nb) ! j = filas (df nb) ! i)}"
    using o len by (simp add: length_filas_drop_duplicates)
qed

theorem dedup_exact_and_row_count_witness:
  "run_all latin1 (loaded permisos) = Inr permisos_final \<and>
   filas (drop_duplicates permisos) = take 5 (filas permisos) \<and>
   nths (filas permisos) {i. \<forall>j<i. filas permisos ! j \<noteq> filas permisos ! i} = take 5 (filas permisos) \<and>
   length (records (the (limpio_csv permisos_final))) = 5 \<and>
   length (filas permisos) = 6 \<and>
   card {i. i < length (filas permisos) \<and> (\<exists>j<i. filas permisos ! j = filas permisos ! i)} = 1"
proof -
  have dd: "filas (drop_duplicates permisos) = take 5 (filas permisos)"
    by code_simp
  have n: "length (records (the (limpio_csv permisos_final))) = 5" "length (filas permisos) = 6"
    by code_simp+
  have d: "df (loaded permisos) = permisos"
    by (simp add: loaded_def)
  from dedup_exact_and_row_count [where nb = "loaded permisos" and U = latin1 and nb' = permisos_final] run_permisos
  show ?thesis
    unfolding d using dd n by auto
qed

text \<open>
  C7. Removing duplicates twice gives the same table (rows and row labels) as removing
  them once.
\<close>

theorem drop_duplicates_idem: "drop_duplicates (drop_duplicates d) = drop_duplicates d"
proof -
  let ?keep = "map Not (duplicated (filas d))"
  let ?fs = "mask_select ?keep (filas d)"
  let ?ix = "mask_select ?keep (index d)"
  have len: "length ?ix \<le> length ?fs"
    using length_mask_select_le [of ?keep "index d"]
          length_mask_select_eq [of "filas d" ?keep]
    by (simp add: duplicated_def)
  have "map Not (duplicated ?fs) = replicate (length ?fs) True"
    by (simp add: duplicated_dedup)
  then show ?thesis
    using len by (simp add: drop_duplicates_def Let_def mask_select_all)
qed

section \<open>Frame\<close>

text \<open>
  C8. When the notebook runs to its end, the header of the written file is the list of
  columns of the input in the same order, no record carries a row label
  (\<^verbatim>\<open>index=False\<close>), and the columns other than \<^verbatim>\<open>tipo_vehiculo\<close>, \<^verbatim>\<open>duracion_dias\<close> and
  \<^verbatim>\<open>zona_circulacion\<close> hold, row by row, what the surviving rows of the input held.
\<close>

theorem schema_and_passthrough:
  "run_all U nb = Inr nb' \<Longrightarrow>
     \<exists>c. limpio_csv nb' = Some c \<and>
         header c = columns (df nb) \<and>
         map fst (records c) = replicate (length (records c)) None \<and>
         map (\<lambda>p. otras (snd p)) (records c) = map otras (filas (drop_duplicates (df nb)))"
proof -
  assume "run_all U nb = Inr nb'"
  then obtain nb2 :: "('a :: linorder) notebook" where
    o: "limpio_csv nb' = Some (to_csv (df nb2) False)" and
    c: "columns (df nb2) = columns (df nb)" and
    m: "map otras (filas (df nb2)) = map otras (filas (drop_duplicates (df nb)))"
    by (rule run_all_output)
  have "map fst (records (to_csv (df nb2) False)) =
          replicate (length (records (to_csv (df nb2) False))) None"
    by (simp add: to_csv_def o_def map_replicate_const)
  then show ?thesis
    using o c m by (simp add: to_csv_def o_def)
qed

theorem schema_and_passthrough_witness:
  "run_all latin1 (loaded permisos) = Inr permisos_final \<and>
   header (the (limpio_csv permisos_final)) =
     [''id'', ''tipo_vehiculo'', ''duracion_dias'', ''zona_circulacion''] \<and>
   columns permisos = [''id'', ''tipo_vehiculo'', ''duracion_dias'', ''zona_circulacion''] \<and>
   map fst (records (the (limpio_csv permisos_final))) = [None, None, None, None, None] \<and>
   map (\<lambda>p. otras (snd p)) (records (the (limpio_csv permisos_final))) =
     [[Num (Fin 1)], [Num (Fin 2)], [Num (Fin 3)], [Num (Fin 4)], [Num (Fin 5)]]"
proof -
  have dd: "map otras (filas (drop_duplicates permisos)) = [[Num (Fin 1)], [Num (Fin 2)], [Num (Fin 3)], [Num (Fin 4)], [Num (Fin 5)]]"
    by code_simp
  have n: "length (records (the (limpio_csv permisos_final))) = 5"
     "columns permisos = [''id'', ''tipo_vehiculo'', ''duracion_dias'', ''zona_circulacion'']"
    by code_simp+
  have d: "df (loaded permisos) = permisos"
    by (simp add: loaded_def)
  from schema_and_passthrough [OF run_permisos]
  show ?thesis
    unfolding d using dd n run_permisos by (auto simp: numeral_eq_Suc)
qed

text \<open>
  C9. The inspection cell leaves the table as it found it: it prints three counts and binds
  \<^verbatim>\<open>invalid_duracion\<close>, and \<^verbatim>\<open>df\<close> after the cell is \<^verbatim>\<open>df\<close> before it.
\<close>

theorem inspect_no_mutation: "inspect_cell nb = Inr nb' \<Longrightarrow> df nb' = df nb"
  unfolding inspect_cell_def Let_def by (auto split: if_splits)

theorem inspect_no_mutation_witness:
  "inspect_cell (loaded permisos) = Inr permisos_inspeccionados \<and>
   df permisos_inspeccionados = permisos \<and> df (loaded permisos) = permisos"
  using inspect_no_mutation [OF inspect_permisos] inspect_permisos
  by (simp add: loaded_def)

text \<open>
  C10. When the notebook runs to its end, the written file has one record for each row of
  the deduplicated table, and a record has a missing \<^verbatim>\<open>tipo_vehiculo\<close> exactly when that row
  had: the cells fill \<^verbatim>\<open>duracion_dias\<close> and \<^verbatim>\<open>zona_circulacion\<close> only.
\<close>

theorem tipo_vehiculo_never_imputed:
  "run_all U nb = Inr nb' \<Longrightarrow>
     \<exists>c. limpio_csv nb' = Some c \<and>
         length (records c) = length (filas (drop_duplicates (df nb))) \<and>
         (\<forall>i<length (records c).
            tipo_vehiculo (snd (records c ! i)) = None \<longleftrightarrow>
            tipo_vehiculo (filas (drop_duplicates (df nb)) ! i) = None)"
proof -
  define rows where "rows = filas (drop_duplicates (df nb))"
  assume "run_all U nb = Inr nb'"
  then obtain nb2 :: "('a :: linorder) notebook" where
    o: "limpio_csv nb' = Some (to_csv (df nb2) False)" and
    t: "map tipo_vehiculo (filas (df nb2)) =
          map (\<lambda>r. map_option (capitalize U \<circ> strip U) (tipo_vehiculo r)) rows"
    unfolding rows_def by (rule run_all_output)
  from t have len: "length (filas (df nb2)) = length rows"
    by (rule map_eq_imp_length_eq)
  have rec: "records (to_csv (df nb2) False) = map (\<lambda>r. (None, r)) (filas (df nb2))"
    by (simp add: to_csv_def)
  have "tipo_vehiculo (snd (records (to_csv (df nb2) False) ! i)) = None \<longleftrightarrow>
        tipo_vehiculo (rows ! i) = None" if "i < length rows" for i
  proof -
    from that len have "tipo_vehiculo (snd (records (to_csv (df nb2) False) ! i)) =
        map tipo_vehiculo (filas (df nb2)) ! i"
      by (simp add: rec)
    also from that have "\<dots> = map_option (capitalize U \<circ> strip U) (tipo_vehiculo (rows ! i))"
      unfolding t by simp
    finally show ?thesis by simp
  qed
  with o len rec show ?thesis
    unfolding rows_def by simp
qed

theorem tipo_vehiculo_never_imputed_witness:
  "run_all latin1 (loaded permisos) = Inr permisos_final \<and>
   tipo_vehiculo (filas (drop_duplicates (df (loaded permisos))) ! 2) = None \<and>
   tipo_vehiculo (snd (records (the (limpio_csv permisos_final)) ! 2)) = None"
proof -
  have n: "tipo_vehiculo (filas (drop_duplicates (df (loaded permisos))) ! 2) = None"
    and l: "2 < length (records (the (limpio_csv permisos_final)))"
    by code_simp+
  from tipo_vehiculo_never_imputed [OF run_permisos] obtain c where
    c: "limpio_csv permisos_final = Some c" and
    i: "\<forall>i<length (records c).
            tipo_vehiculo (snd (records c ! i)) = None \<longleftrightarrow>
            tipo_vehiculo (filas (drop_duplicates (df (loaded permisos))) ! i) = None"
    by blast
  from c l have "2 < length (records c)" by simp
  with i n have "tipo_vehiculo (snd (records c ! 2)) = None" by blast
  with c run_permisos n show ?thesis by simp
qed

end
